theory Spec2Isabelle
  imports Complex_Main
begin

section \<open>Errors\<close>

text \<open>
  Every \<^verbatim>\<open>raise\<close> of the source is a value. \<open>AssertionError\<close> carries the message of
  the failed \<^verbatim>\<open>assert\<close>. \<open>ValueError\<close> stands for the errors TensorFlow raises when an
  operation cannot be built or run for its operand shapes, \<open>IndexError\<close> for
  \<^verbatim>\<open>shape[i]\<close> beyond the rank, \<open>AttributeError\<close> for an attribute read on
  \<^verbatim>\<open>None\<close>, \<open>TypeError\<close> for arithmetic on \<^verbatim>\<open>None\<close>.
\<close>

datatype error = AssertionError string | ValueError | IndexError | AttributeError | TypeError

definition ebind :: "error + 'a \<Rightarrow> ('a \<Rightarrow> error + 'b) \<Rightarrow> error + 'b" where
  "ebind r f = (case r of Inl e \<Rightarrow> Inl e | Inr a \<Rightarrow> f a)"

section \<open>Tensors\<close>

text \<open>
  A tensor is its shape and its elements in row-major order, as TensorFlow and numpy
  store it. The elements of a \<^verbatim>\<open>float32\<close> tensor are taken as real numbers: rounding,
  overflow and NaN are not part of this model. \<^verbatim>\<open>int64\<close> tensors (the results of
  \<^verbatim>\<open>tf.argmax\<close>) hold naturals, boolean tensors hold \<open>bool\<close>.
\<close>

datatype 'a tensor = Tensor (shape: "nat list") (buf: "'a list")

definition numel :: "nat list \<Rightarrow> nat" where
  "numel sh = prod_list sh"

definition wf_tensor :: "'a tensor \<Rightarrow> bool" where
  "wf_tensor t = (length (buf t) = numel (shape t))"

text \<open>Row-major offset of a multi-index, and all multi-indices of a shape in that order.\<close>

fun ravel :: "nat list \<Rightarrow> nat list \<Rightarrow> nat" where
  "ravel (n # sh) (i # ix) = i * numel sh + ravel sh ix"
| "ravel _ _ = 0"

fun indices :: "nat list \<Rightarrow> nat list list" where
  "indices [] = [[]]"
| "indices (n # sh) = concat (map (\<lambda>i. map ((#) i) (indices sh)) [0..<n])"

definition tget :: "'a tensor \<Rightarrow> nat list \<Rightarrow> 'a" where
  "tget t ix = buf t ! ravel (shape t) ix"

definition tabulate :: "nat list \<Rightarrow> (nat list \<Rightarrow> 'a) \<Rightarrow> 'a tensor" where
  "tabulate sh f = Tensor sh (map f (indices sh))"

definition tmap :: "('a \<Rightarrow> 'b) \<Rightarrow> 'a tensor \<Rightarrow> 'b tensor" where
  "tmap f t = Tensor (shape t) (map f (buf t))"

text \<open>\<^verbatim>\<open>t.shape[i]\<close> and \<^verbatim>\<open>t.shape.as_list()[i]\<close>.\<close>

definition shape_at :: "'a tensor \<Rightarrow> nat \<Rightarrow> error + nat" where
  "shape_at t i = (if i < length (shape t) then Inr (shape t ! i) else Inl IndexError)"

subsection \<open>The TensorFlow operations the class uses\<close>

text \<open>
  \<^verbatim>\<open>tf.matmul\<close> of two matrices. The batched product of operands of higher rank is not
  modelled: it is an error here.
\<close>

definition matmul :: "real tensor \<Rightarrow> real tensor \<Rightarrow> error + real tensor" where
  "matmul a b =
     (case (shape a, shape b) of
        ([n, k], [k', p]) \<Rightarrow>
          if k = k'
          then Inr (tabulate [n, p]
                 (\<lambda>ix. sum_list (map (\<lambda>l. tget a [ix ! 0, l] * tget b [l, ix ! 1]) [0..<k])))
          else Inl ValueError
      | _ \<Rightarrow> Inl ValueError)"

text \<open>
  \<^verbatim>\<open>tf.reshape\<close>: the elements stay as they are, one dimension may be \<open>-1\<close> and is then
  inferred from the number of elements; it cannot be inferred when another requested
  dimension is zero.
\<close>

definition reshape :: "'a tensor \<Rightarrow> int list \<Rightarrow> error + 'a tensor" where
  "reshape t dims =
     (let total = numel (shape t);
          known = numel (map nat (filter (\<lambda>k. k \<noteq> - 1) dims))
      in if list_ex (\<lambda>k. k < - 1) dims \<or> 1 < count_list dims (- 1) then Inl ValueError
         else if - 1 \<in> set dims
         then (if known = 0 \<or> total mod known \<noteq> 0 then Inl ValueError
               else Inr (Tensor (map (\<lambda>k. if k = - 1 then total div known else nat k) dims)
                          (buf t)))
         else if known = total then Inr (Tensor (map nat dims) (buf t))
         else Inl ValueError)"

text \<open>
  Broadcasting of an elementwise binary operation: shapes are aligned at the right, a
  dimension of size one is stretched to the other operand's size.
\<close>

definition pad_shape :: "nat \<Rightarrow> nat list \<Rightarrow> nat list" where
  "pad_shape r sh = replicate (r - length sh) 1 @ sh"

definition broadcast_shape :: "nat list \<Rightarrow> nat list \<Rightarrow> nat list option" where
  "broadcast_shape a b =
     (let r = max (length a) (length b); a' = pad_shape r a; b' = pad_shape r b
      in if list_all2 (\<lambda>x y. x = y \<or> x = 1 \<or> y = 1) a' b'
         then Some (map2 (\<lambda>x y. if x = 1 then y else x) a' b')
         else None)"

definition bindex :: "nat list \<Rightarrow> nat list \<Rightarrow> nat list" where
  "bindex sh ix = map2 (\<lambda>n i. if n = 1 then 0 else i) sh (drop (length ix - length sh) ix)"

definition broadcast2 :: "('a \<Rightarrow> 'b \<Rightarrow> 'c) \<Rightarrow> 'a tensor \<Rightarrow> 'b tensor \<Rightarrow> error + 'c tensor" where
  "broadcast2 f a b =
     (case broadcast_shape (shape a) (shape b) of
        None \<Rightarrow> Inl ValueError
      | Some sh \<Rightarrow>
          Inr (tabulate sh (\<lambda>ix. f (tget a (bindex (shape a) ix)) (tget b (bindex (shape b) ix)))))"

text \<open>\<^verbatim>\<open>tf.reduce_sum(t, axis, keepdims)\<close>.\<close>

definition reduce_sum :: "real tensor \<Rightarrow> nat \<Rightarrow> bool \<Rightarrow> error + real tensor" where
  "reduce_sum t axis keepdims =
     (let sh = shape t
      in if axis < length sh
         then Inr (tabulate
                (if keepdims then sh[axis := 1] else take axis sh @ drop (Suc axis) sh)
                (\<lambda>ix. sum_list (map
                   (\<lambda>k. tget t (if keepdims then ix[axis := k]
                               else take axis ix @ k # drop axis ix))
                   [0..<sh ! axis])))
         else Inl ValueError)"

text \<open>
  \<^verbatim>\<open>tf.argmax(t, axis)\<close>: the index of a largest element along the axis; an empty
  reduction axis is an error. TensorFlow leaves open which index is returned when the
  largest element occurs more than once; the model takes the smallest, as the CPU
  kernel does.
\<close>

fun argmax_list :: "real list \<Rightarrow> nat" where
  "argmax_list [] = 0"
| "argmax_list [x] = 0"
| "argmax_list (x # xs) = (let j = argmax_list xs in if xs ! j \<le> x then 0 else Suc j)"

definition argmax :: "real tensor \<Rightarrow> nat \<Rightarrow> error + nat tensor" where
  "argmax t axis =
     (let sh = shape t
      in if axis < length sh \<and> 0 < sh ! axis
         then Inr (tabulate (take axis sh @ drop (Suc axis) sh)
                (\<lambda>ix. argmax_list
                   (map (\<lambda>k. tget t (take axis ix @ k # drop axis ix)) [0..<sh ! axis])))
         else Inl ValueError)"

text \<open>
  \<^verbatim>\<open>tf.reduce_mean\<close> over all axes gives a scalar: the sum divided by the number of
  elements, NaN for an empty tensor.
\<close>

datatype scalar = NaN | Val real

definition reduce_mean :: "real tensor \<Rightarrow> scalar" where
  "reduce_mean t =
     (if buf t = [] then NaN else Val (sum_list (buf t) / real (length (buf t))))"

text \<open>
  The initializers \<^verbatim>\<open>tf.random_normal_initializer()\<close> and
  \<^verbatim>\<open>tf.random_uniform_initializer()\<close>, called with a shape: a tensor of that shape
  whose elements are drawn from a sample stream, which is a parameter of the model. A
  negative dimension is an error.
\<close>

definition initializer :: "(nat \<Rightarrow> real) \<Rightarrow> int list \<Rightarrow> error + real tensor" where
  "initializer gen dims =
     (if list_ex (\<lambda>k. k < 0) dims then Inl ValueError
      else Inr (Tensor (map nat dims) (map gen [0..<numel (map nat dims)])))"

record samples =
  normal_W :: "nat \<Rightarrow> real"
  uniform_B :: "nat \<Rightarrow> real"
  normal_Z :: "nat \<Rightarrow> real"

section \<open>The class ProtoNN\<close>

text \<open>
  The attributes of an instance. \<open>None\<close> is Python's \<^verbatim>\<open>None\<close>; for \<open>self_l2sim\<close>,
  which only \<^verbatim>\<open>__call__\<close> creates, it also stands for the attribute not being there.
  The name scope is not modelled. A \<^verbatim>\<open>tf.Variable\<close> or \<^verbatim>\<open>tf.constant\<close> is the value
  it holds.
\<close>

record ProtoNN =
  self_d :: int
  self_d_cap :: int
  self_m :: int
  self_L :: int
  self_inW :: "real tensor option"
  self_inB :: "real tensor option"
  self_inZ :: "real tensor option"
  self_inGamma :: real
  self_W :: "real tensor option"
  self_B :: "real tensor option"
  self_Z :: "real tensor option"
  self_gamma :: "real option"
  self_validInit :: bool
  self_protoNNOut :: "real tensor option"
  self_predictions :: "nat tensor option"
  self_accuracy :: "scalar option"
  self_l2sim :: "real tensor option"

text \<open>
  A method is a function from the instance to its result, an error or a value, and the
  instance as the method leaves it.
\<close>

definition getHyperParams :: "ProtoNN \<Rightarrow> int \<times> int \<times> int \<times> int \<times> real option" where
  "getHyperParams self = (self_d self, self_d_cap self, self_m self, self_L self, self_gamma self)"


definition errmsg :: string where
  "errmsg = ''Dimensions mismatch! Should be W[d, d_cap]'' @ '', B[d_cap, m] and Z[L, m]''"

text \<open>One line \<^verbatim>\<open>assert t.shape[i] == v, errmsg\<close> of \<^verbatim>\<open>__validateInit\<close>.\<close>

definition assert_dim :: "real tensor option \<Rightarrow> nat \<Rightarrow> int \<Rightarrow> error + unit" where
  "assert_dim t i v =
     (case t of
        None \<Rightarrow> Inl AttributeError
      | Some t' \<Rightarrow>
          ebind (shape_at t' i)
            (\<lambda>n. if int n = v then Inr () else Inl (AssertionError errmsg)))"

fun asserts :: "(error + unit) list \<Rightarrow> error + unit" where
  "asserts [] = Inr ()"
| "asserts (Inl e # cs) = Inl e"
| "asserts (Inr u # cs) = asserts cs"

definition validateInit :: "ProtoNN \<Rightarrow> (error + unit) \<times> ProtoNN" where
  "validateInit self0 =
     (let self = self0\<lparr>self_validInit := False\<rparr>;
          (d, d_cap, m, L, _) = getHyperParams self
      in case asserts
           [assert_dim (self_W self) 0 d,
            assert_dim (self_W self) 1 d_cap,
            assert_dim (self_B self) 0 d_cap,
            assert_dim (self_B self) 1 m,
            assert_dim (self_Z self) 0 L,
            assert_dim (self_Z self) 1 m] of
           Inl e \<Rightarrow> (Inl e, self)
         | Inr _ \<Rightarrow> (Inr (), self\<lparr>self_validInit := True\<rparr>))"

definition initWBZ :: "samples \<Rightarrow> ProtoNN \<Rightarrow> (error + unit) \<times> ProtoNN" where
  "initWBZ rnd self =
     (case (case self_inW self of
              None \<Rightarrow> initializer (normal_W rnd) [self_d self, self_d_cap self]
            | Some W \<Rightarrow> Inr W) of
        Inl e \<Rightarrow> (Inl e, self)
      | Inr W \<Rightarrow>
          (case (case self_inB self of
                   None \<Rightarrow> initializer (uniform_B rnd) [self_d_cap self, self_m self]
                 | Some B \<Rightarrow> Inr B) of
             Inl e \<Rightarrow> (Inl e, self\<lparr>self_W := Some W\<rparr>)
           | Inr B \<Rightarrow>
               (case (case self_inZ self of
                        None \<Rightarrow> initializer (normal_Z rnd) [self_L self, self_m self]
                      | Some Z \<Rightarrow> Inr Z) of
                  Inl e \<Rightarrow> (Inl e, self\<lparr>self_W := Some W, self_B := Some B\<rparr>)
                | Inr Z \<Rightarrow>
                    (Inr (), self\<lparr>self_W := Some W, self_B := Some B, self_Z := Some Z\<rparr>))))"

definition initGamma :: "ProtoNN \<Rightarrow> (error + unit) \<times> ProtoNN" where
  "initGamma self = (Inr (), self\<lparr>self_gamma := Some (self_inGamma self)\<rparr>)"

text \<open>
  \<^verbatim>\<open>__init__\<close>: an exception leaves the caller without an instance, so the result is
  the error or the instance.
\<close>

definition init ::
  "samples \<Rightarrow> int \<Rightarrow> int \<Rightarrow> int \<Rightarrow> int \<Rightarrow> real \<Rightarrow>
   real tensor option \<Rightarrow> real tensor option \<Rightarrow> real tensor option \<Rightarrow> error + ProtoNN" where
  "init rnd inputDimension projectionDimension numPrototypes numOutputLabels gamma W B Z =
     (let self = \<lparr>self_d = inputDimension, self_d_cap = projectionDimension,
                   self_m = numPrototypes, self_L = numOutputLabels,
                   self_inW = W, self_inB = B, self_inZ = Z, self_inGamma = gamma,
                   self_W = None, self_B = None, self_Z = None, self_gamma = None,
                   self_validInit = False,
                   self_protoNNOut = None, self_predictions = None, self_accuracy = None,
                   self_l2sim = None\<rparr>
      in case initWBZ rnd self of
           (Inl e, _) \<Rightarrow> Inl e
         | (Inr _, self) \<Rightarrow>
             (case initGamma self of
                (Inl e, _) \<Rightarrow> Inl e
              | (Inr _, self) \<Rightarrow>
                  (case validateInit self of
                     (Inl e, _) \<Rightarrow> Inl e
                   | (Inr _, self) \<Rightarrow>
                       Inr (self\<lparr>self_protoNNOut := None, self_predictions := None,
                                  self_accuracy := None\<rparr>))))"

subsection \<open>The forward computation\<close>

text \<open>
  \<^verbatim>\<open>__call__\<close> in the pieces between its assignments to attributes; it reads
  \<open>W\<close>, \<open>B\<close>, \<open>Z\<close> and \<open>gamma\<close> from the instance before any of them. Lines 114 to 122:
  the projection, the two reshapes, and the squared distance of every projected row to
  every prototype.
\<close>

definition call_l2sim ::
  "real tensor option \<Rightarrow> real tensor option \<Rightarrow> real tensor \<Rightarrow> error + real tensor" where
  "call_l2sim W B X =
     ebind (case W of None \<Rightarrow> Inl ValueError | Some W' \<Rightarrow> matmul X W') (\<lambda>WX.
     ebind (shape_at WX 1) (\<lambda>c.
     ebind (reshape WX [- 1, int c, 1]) (\<lambda>WX.
     ebind (case B of None \<Rightarrow> Inl AttributeError | Some B' \<Rightarrow> Inr B') (\<lambda>B.
     ebind (shape_at B 0) (\<lambda>r.
     ebind (reshape B [1, int r, - 1]) (\<lambda>B.
     ebind (broadcast2 (-) B WX) (\<lambda>l2sim.
     let l2sim = tmap (\<lambda>x. x ^ 2) l2sim
     in reduce_sum l2sim 1 True)))))))"

text \<open>Lines 124 and 125: the kernel weights \<open>M\<close>.\<close>

definition call_M :: "real option \<Rightarrow> real tensor \<Rightarrow> error + real tensor" where
  "call_M gamma l2sim =
     (case gamma of
        None \<Rightarrow> Inl TypeError
      | Some g \<Rightarrow>
          let gammal2sim = tmap (\<lambda>x. (- 1 * g * g) * x) l2sim
          in Inr (tmap exp gammal2sim))"

text \<open>Lines 126 to 129: the scores, the kernel weights summed with the weights \<open>Z\<close>.\<close>

definition call_y :: "real tensor option \<Rightarrow> real tensor \<Rightarrow> error + real tensor" where
  "call_y Z M =
     ebind (case Z of
              None \<Rightarrow> Inl AttributeError
            | Some Z' \<Rightarrow> reshape Z' (1 # map int (shape Z'))) (\<lambda>Z.
     ebind (broadcast2 (*) Z M) (\<lambda>y.
     reduce_sum y 2 False))"

text \<open>Lines 133 to 136: the accuracy of the predictions against the labels \<open>Y\<close>.\<close>

definition call_acc :: "nat tensor \<Rightarrow> real tensor \<Rightarrow> error + scalar" where
  "call_acc predictions Y =
     ebind (argmax Y 1) (\<lambda>target.
     ebind (broadcast2 (=) predictions target) (\<lambda>correctPrediction.
     Inr (reduce_mean (tmap (\<lambda>c. if c then 1 else 0) correctPrediction))))"

definition call ::
  "ProtoNN \<Rightarrow> real tensor \<Rightarrow> real tensor option \<Rightarrow> (error + real tensor) \<times> ProtoNN" where
  "call self X Y =
     (if \<not> self_validInit self then (Inl (AssertionError ''Initialization failed!''), self)
      else case self_protoNNOut self of
        Some out \<Rightarrow> (Inr out, self)
      | None \<Rightarrow>
          (case call_l2sim (self_W self) (self_B self) X of
             Inl e \<Rightarrow> (Inl e, self)
           | Inr l2sim \<Rightarrow>
               (case ebind (call_M (self_gamma self) l2sim) (call_y (self_Z self)) of
                  Inl e \<Rightarrow> (Inl e, self\<lparr>self_l2sim := Some l2sim\<rparr>)
                | Inr y \<Rightarrow>
                    (case argmax y 1 of
                       Inl e \<Rightarrow>
                         (Inl e, self\<lparr>self_l2sim := Some l2sim, self_protoNNOut := Some y\<rparr>)
                     | Inr p \<Rightarrow>
                         (case Y of
                            None \<Rightarrow>
                              (Inr y, self\<lparr>self_l2sim := Some l2sim, self_protoNNOut := Some y,
                                           self_predictions := Some p\<rparr>)
                          | Some Y' \<Rightarrow>
                              (case call_acc p Y' of
                                 Inl e \<Rightarrow>
                                   (Inl e, self\<lparr>self_l2sim := Some l2sim,
                                                self_protoNNOut := Some y,
                                                self_predictions := Some p\<rparr>)
                               | Inr acc \<Rightarrow>
                                   (Inr y, self\<lparr>self_l2sim := Some l2sim,
                                                self_protoNNOut := Some y,
                                                self_predictions := Some p,
                                                self_accuracy := Some acc\<rparr>)))))))"

definition getPredictionsOp :: "ProtoNN \<Rightarrow> nat tensor option" where
  "getPredictionsOp self = self_predictions self"

definition msg :: string where
  "msg = ''Accuracy operator not defined in graph. Did you provide Y as an''
           @ '' argument to _call_?''"

definition getAccuracyOp :: "ProtoNN \<Rightarrow> error + scalar" where
  "getAccuracyOp self =
     (case self_accuracy self of
        None \<Rightarrow> Inl (AssertionError msg)
      | Some acc \<Rightarrow> Inr acc)"

text \<open>The errors that come out of the TensorFlow operations and of reads of \<^verbatim>\<open>None\<close>.\<close>

definition raised_by_tf :: "error \<Rightarrow> bool" where
  "raised_by_tf e = (e = ValueError \<or> e = IndexError \<or> e = AttributeError \<or> e = TypeError)"

section \<open>Callers\<close>

text \<open>
  A caller that makes one \<^verbatim>\<open>__call__\<close> after the other on the same instance, going
  on after an exception: the instance after the calls.
\<close>

fun calls :: "ProtoNN \<Rightarrow> (real tensor \<times> real tensor option) list \<Rightarrow> ProtoNN" where
  "calls self [] = self"
| "calls self ((X, Y) # cs) = calls (snd (call self X Y)) cs"

text \<open>
  The one-hot label matrix of a list of labels, for \<open>L\<close> classes: row \<open>i\<close> is one at
  column \<open>labels ! i\<close> and zero elsewhere.
\<close>

definition one_hot :: "nat \<Rightarrow> nat list \<Rightarrow> real tensor" where
  "one_hot L labels =
     Tensor [length labels, L]
       (concat (map (\<lambda>k. map (\<lambda>j. if j = k then 1 else 0) [0..<L]) labels))"

text \<open>A matrix that the caller supplies, or leaves out, at construction.\<close>

definition is_matrix :: "real tensor option \<Rightarrow> bool" where
  "is_matrix t = (case t of None \<Rightarrow> True | Some t' \<Rightarrow> length (shape t') = 2)"

section \<open>An example instance\<close>

text \<open>
  The model of the numeric example: \<open>d = 2\<close>, \<open>d_cap = 2\<close>, \<open>m = 1\<close>, \<open>L = 2\<close>,
  \<open>gamma = 1\<close>, with \<open>W\<close> the identity, one prototype at the origin, and \<open>Z\<close> giving it
  to label 0; an input batch of one row, another of two rows, and the one-hot labels
  of the first.
\<close>

definition example_rnd :: samples where
  "example_rnd = \<lparr>normal_W = (\<lambda>k. 0), uniform_B = (\<lambda>k. 0), normal_Z = (\<lambda>k. 0)\<rparr>"

definition example_W :: "real tensor" where
  "example_W = Tensor [2, 2] [1, 0, 0, 1]"

definition example_B :: "real tensor" where
  "example_B = Tensor [2, 1] [0, 0]"

definition example_Z :: "real tensor" where
  "example_Z = Tensor [2, 1] [1, 0]"

definition example_X :: "real tensor" where
  "example_X = Tensor [1, 2] [0, 0]"

definition example_X2 :: "real tensor" where
  "example_X2 = Tensor [2, 2] [0, 0, 3, 4]"

definition example_Y :: "real tensor" where
  "example_Y = Tensor [1, 2] [1, 0]"

definition example :: ProtoNN where
  "example =
     \<lparr>self_d = 2, self_d_cap = 2, self_m = 1, self_L = 2,
      self_inW = Some example_W, self_inB = Some example_B, self_inZ = Some example_Z,
      self_inGamma = 1,
      self_W = Some example_W, self_B = Some example_B, self_Z = Some example_Z,
      self_gamma = Some 1, self_validInit = True,
      self_protoNNOut = None, self_predictions = None, self_accuracy = None,
      self_l2sim = None\<rparr>"

text \<open>The example instance after its first call, made without labels.\<close>

definition example_called :: ProtoNN where
  "example_called =
     example\<lparr>self_l2sim := Some (Tensor [1, 1, 1] [0]),
              self_protoNNOut := Some (Tensor [1, 2] [1, 0]),
              self_predictions := Some (Tensor [1] [0])\<rparr>"

section \<open>Evaluation of the tensor operations\<close>

lemmas tensor_eval =
  ebind_def matmul_def tabulate_def tget_def numel_def upt_rec shape_at_def reshape_def
  broadcast2_def broadcast_shape_def pad_shape_def bindex_def tmap_def reduce_sum_def
  argmax_def

lemmas init_eval =
  init_def initWBZ_def initGamma_def validateInit_def getHyperParams_def assert_dim_def

section \<open>Shapes and results of the operations\<close>

lemma length_indices: "length (indices sh) = numel sh"
  by (induction sh) (simp_all add: numel_def length_concat comp_def sum_list_triv)

lemma indices_1d: "indices [n] = map (\<lambda>i. [i]) [0..<n]"
  by (simp add: concat_map_singleton)

lemma shape_tabulate: "shape (tabulate sh f) = sh"
  by (simp add: tabulate_def)

lemma length_buf_tabulate: "length (buf (tabulate sh f)) = numel sh"
  by (simp add: tabulate_def length_indices)

lemma shape_tmap: "shape (tmap f t) = shape t"
  by (simp add: tmap_def)

lemma reshape_WX:
  assumes "0 < c" and "shape t = [n, c]"
  shows "reshape t [- 1, int c, 1] = Inr (Tensor [n, c, Suc 0] (buf t))"
  using assms by (simp add: reshape_def numel_def)

lemma reshape_B:
  assumes "0 < r" and "shape t = [r, m]"
  shows "reshape t [1, int r, - 1] = Inr (Tensor [Suc 0, r, m] (buf t))"
  using assms by (simp add: reshape_def numel_def)

lemma filter_int_list: "filter (\<lambda>k. k \<noteq> - 1) (map int sh) = map int sh"
  by (induction sh) simp_all

lemma reshape_Z: "reshape t (1 # map int (shape t)) = Inr (Tensor (Suc 0 # shape t) (buf t))"
  by (simp add: reshape_def numel_def filter_int_list comp_def list_ex_iff count_list_0_iff image_iff)

lemma broadcast_B_WX: "broadcast_shape [Suc 0, c, m] [n, c, Suc 0] = Some [n, c, m]"
  by (simp add: broadcast_shape_def pad_shape_def)

lemma broadcast_Z_M: "broadcast_shape [Suc 0, L, m] [n, Suc 0, m] = Some [n, L, m]"
  by (simp add: broadcast_shape_def pad_shape_def)

lemma matmul_shape:
  assumes "shape X = [n, d]" and "shape W = [d, c]"
  shows "\<exists>WX. matmul X W = Inr WX \<and> shape WX = [n, c]"
  using assms by (simp add: matmul_def shape_tabulate)

lemma reduce_sum_keep_shape:
  assumes "shape t = [n, c, m]"
  shows "\<exists>l. reduce_sum t (Suc 0) True = Inr l \<and> shape l = [n, Suc 0, m]"
  using assms by (simp add: reduce_sum_def shape_tabulate)

lemma call_l2sim_shape:
  assumes X: "shape X = [n, d]" and W: "shape W = [d, c]" and B: "shape B = [c, m]"
    and c: "0 < c"
  shows "\<exists>l. call_l2sim (Some W) (Some B) X = Inr l \<and> shape l = [n, Suc 0, m]"
proof -
  obtain WX where WX: "matmul X W = Inr WX" "shape WX = [n, c]"
    using matmul_shape [OF X W] by blast
  have c1: "shape_at WX (Suc 0) = Inr c"
    by (simp add: shape_at_def WX)
  have r1: "reshape WX [- 1, int c, 1] = Inr (Tensor [n, c, Suc 0] (buf WX))"
    by (rule reshape_WX [OF c WX(2)])
  have c2: "shape_at B 0 = Inr c"
    by (simp add: shape_at_def B)
  have r2: "reshape B [1, int c, - 1] = Inr (Tensor [Suc 0, c, m] (buf B))"
    by (rule reshape_B [OF c B])
  obtain D where D: "broadcast2 (-) (Tensor [Suc 0, c, m] (buf B)) (Tensor [n, c, Suc 0] (buf WX)) = Inr D"
    "shape D = [n, c, m]"
    by (simp add: broadcast2_def broadcast_B_WX shape_tabulate)
  have "shape (tmap (\<lambda>x. x ^ 2) D) = [n, c, m]"
    by (simp add: shape_tmap D)
  from reduce_sum_keep_shape [OF this] obtain l
    where l: "reduce_sum (tmap (\<lambda>x. x ^ 2) D) (Suc 0) True = Inr l" "shape l = [n, Suc 0, m]"
    by blast
  show ?thesis
    by (simp add: call_l2sim_def ebind_def WX c1 r1 c2 r2 D l)
qed

lemma call_M_shape: "\<exists>M. call_M (Some g) l = Inr M \<and> shape M = shape l"
  by (simp add: call_M_def shape_tmap)

lemma call_y_shape:
  assumes Z: "shape Z = [L, m]" and M: "shape M = [n, Suc 0, m]"
  shows "\<exists>y. call_y (Some Z) M = Inr y \<and> shape y = [n, L] \<and> length (buf y) = n * L"
proof -
  have r: "reshape Z (1 # map int (shape Z)) = Inr (Tensor [Suc 0, L, m] (buf Z))"
    using reshape_Z [of Z] by (simp add: Z)
  obtain P where P: "broadcast2 (*) (Tensor [Suc 0, L, m] (buf Z)) M = Inr P" "shape P = [n, L, m]"
    by (simp add: broadcast2_def M broadcast_Z_M shape_tabulate)
  have "\<exists>y. reduce_sum P 2 False = Inr y \<and> shape y = [n, L] \<and> length (buf y) = n * L"
    by (simp add: reduce_sum_def P shape_tabulate length_buf_tabulate numel_def)
  then show ?thesis
    by (simp add: call_y_def ebind_def r P)
qed

lemma argmax_axis1:
  assumes "shape y = [n, L]" and "0 < L"
  shows "argmax y 1 =
    Inr (Tensor [n] (map (\<lambda>i. argmax_list (map (\<lambda>k. tget y [i, k]) [0..<L])) [0..<n]))"
  using assms by (simp add: argmax_def tabulate_def indices_1d comp_def)


lemma equal_1d:
  assumes "shape p = [n]" and "shape t = [n]"
  shows "broadcast2 (=) p t = Inr (Tensor [n] (map (\<lambda>i. buf p ! i = buf t ! i) [0..<n]))"
proof -
  have "map (\<lambda>ix. tget p (bindex [n] ix) = tget t (bindex [n] ix)) (indices [n]) =
        map (\<lambda>i. buf p ! i = buf t ! i) [0..<n]"
    unfolding indices_1d map_map
    by (rule map_cong) (auto simp: bindex_def tget_def assms numel_def)
  then show ?thesis
    by (simp add: broadcast2_def assms broadcast_shape_def pad_shape_def tabulate_def)
qed

lemma call_acc_value:
  assumes p: "shape p = [n]" and Y: "shape Y = [n, L]" and L: "0 < L" and n: "0 < n"
  shows "\<exists>t. argmax Y 1 = Inr (Tensor [n] t) \<and> length t = n \<and>
           t = map (\<lambda>i. argmax_list (map (\<lambda>k. tget Y [i, k]) [0..<L])) [0..<n] \<and>
           call_acc p Y =
             Inr (Val (sum_list (map (\<lambda>i. if buf p ! i = t ! i then 1 else 0) [0..<n]) / real n))"
proof -
  let ?t = "map (\<lambda>i. argmax_list (map (\<lambda>k. tget Y [i, k]) [0..<L])) [0..<n]"
  have a: "argmax Y (Suc 0) = Inr (Tensor [n] ?t)"
    using argmax_axis1 [OF Y L] by simp
  have e: "broadcast2 (=) p (Tensor [n] ?t) =
     Inr (Tensor [n] (map (\<lambda>i. buf p ! i = buf (Tensor [n] ?t) ! i) [0..<n]))"
    by (rule equal_1d) (simp_all add: p)
  show ?thesis
    using n by (simp add: call_acc_def ebind_def a e reduce_mean_def tmap_def comp_def)
qed


lemma initializer_rank2:
  "initializer gen [a, b] = Inr t \<Longrightarrow> shape t = [nat a, nat b] \<and> 0 \<le> a \<and> 0 \<le> b"
  by (auto simp: initializer_def split: if_splits)

lemma rank2_shape: "length (shape t) = 2 \<Longrightarrow> \<exists>a b. shape t = [a, b]"
  by (cases "shape t"; simp; case_tac list; simp)

lemma validateInit_matrices:
  assumes "self_W self = Some W" and "self_B self = Some B" and "self_Z self = Some Z"
    and "length (shape W) = 2" and "length (shape B) = 2" and "length (shape Z) = 2"
  shows "validateInit self =
    (if map int (shape W) = [self_d self, self_d_cap self] \<and>
        map int (shape B) = [self_d_cap self, self_m self] \<and>
        map int (shape Z) = [self_L self, self_m self]
     then (Inr (), self\<lparr>self_validInit := True\<rparr>)
     else (Inl (AssertionError errmsg), self\<lparr>self_validInit := False\<rparr>))"
proof -
  obtain a b where W: "shape W = [a, b]" using rank2_shape assms(4) by blast
  obtain c e where B: "shape B = [c, e]" using rank2_shape assms(5) by blast
  obtain f g where Z: "shape Z = [f, g]" using rank2_shape assms(6) by blast
  show ?thesis
    by (simp add: validateInit_def getHyperParams_def assert_dim_def shape_at_def ebind_def
        assms(1-3) W B Z)
qed


lemma pick_matrix:
  assumes "(case inT of None \<Rightarrow> initializer gen [a, b] | Some t \<Rightarrow> Inr t) = Inr T"
    and "is_matrix inT"
  shows "length (shape T) = 2 \<and> (\<forall>t. inT = Some t \<longrightarrow> T = t)"
  using assms by (cases inT) (auto simp: is_matrix_def dest: initializer_rank2)

lemma initWBZ_Inr:
  assumes r: "initWBZ rnd self = (Inr u, self')"
    and mW: "is_matrix (self_inW self)" and mB: "is_matrix (self_inB self)"
    and mZ: "is_matrix (self_inZ self)"
  shows "\<exists>W B Z. self' = self\<lparr>self_W := Some W, self_B := Some B, self_Z := Some Z\<rparr> \<and>
           length (shape W) = 2 \<and> length (shape B) = 2 \<and> length (shape Z) = 2 \<and>
           (\<forall>t. self_inW self = Some t \<longrightarrow> W = t) \<and>
           (\<forall>t. self_inB self = Some t \<longrightarrow> B = t) \<and>
           (\<forall>t. self_inZ self = Some t \<longrightarrow> Z = t)"
proof -
  let ?pW = "case self_inW self of
               None \<Rightarrow> initializer (normal_W rnd) [self_d self, self_d_cap self]
             | Some W \<Rightarrow> Inr W"
  let ?pB = "case self_inB self of
               None \<Rightarrow> initializer (uniform_B rnd) [self_d_cap self, self_m self]
             | Some B \<Rightarrow> Inr B"
  let ?pZ = "case self_inZ self of
               None \<Rightarrow> initializer (normal_Z rnd) [self_L self, self_m self]
             | Some Z \<Rightarrow> Inr Z"
  obtain W where W: "?pW = Inr W"
    using r by (cases ?pW) (simp_all add: initWBZ_def)
  obtain B where B: "?pB = Inr B"
    using r W by (cases ?pB) (simp_all add: initWBZ_def)
  obtain Z where Z: "?pZ = Inr Z"
    using r W B by (cases ?pZ) (simp_all add: initWBZ_def)
  have "self' = self\<lparr>self_W := Some W, self_B := Some B, self_Z := Some Z\<rparr>"
    using r by (simp add: initWBZ_def W B Z)
  with pick_matrix [OF W mW] pick_matrix [OF B mB] pick_matrix [OF Z mZ]
  show ?thesis by blast
qed


lemma init_supplied:
  assumes "length (shape W) = 2" and "length (shape B) = 2" and "length (shape Z) = 2"
  shows "init rnd d c m L g (Some W) (Some B) (Some Z) =
    (if map int (shape W) = [d, c] \<and> map int (shape B) = [c, m] \<and> map int (shape Z) = [L, m]
     then Inr \<lparr>self_d = d, self_d_cap = c, self_m = m, self_L = L,
               self_inW = Some W, self_inB = Some B, self_inZ = Some Z, self_inGamma = g,
               self_W = Some W, self_B = Some B, self_Z = Some Z, self_gamma = Some g,
               self_validInit = True,
               self_protoNNOut = None, self_predictions = None, self_accuracy = None,
               self_l2sim = None\<rparr>
     else Inl (AssertionError errmsg))"
proof -
  let ?s = "\<lparr>self_d = d, self_d_cap = c, self_m = m, self_L = L,
              self_inW = Some W, self_inB = Some B, self_inZ = Some Z, self_inGamma = g,
              self_W = Some W, self_B = Some B, self_Z = Some Z, self_gamma = Some g,
              self_validInit = False,
              self_protoNNOut = None, self_predictions = None, self_accuracy = None,
              self_l2sim = None\<rparr>"
  have v: "validateInit ?s =
    (if map int (shape W) = [self_d ?s, self_d_cap ?s] \<and>
        map int (shape B) = [self_d_cap ?s, self_m ?s] \<and>
        map int (shape Z) = [self_L ?s, self_m ?s]
     then (Inr (), ?s\<lparr>self_validInit := True\<rparr>)
     else (Inl (AssertionError errmsg), ?s\<lparr>self_validInit := False\<rparr>))"
    by (rule validateInit_matrices) (simp_all add: assms)
  show ?thesis
    by (simp add: init_def initWBZ_def initGamma_def v)
qed

lemma init_Inr:
  assumes i: "init rnd d c m L g W B Z = Inr self"
    and mW: "is_matrix W" and mB: "is_matrix B" and mZ: "is_matrix Z"
  shows "\<exists>W' B' Z'.
    self = \<lparr>self_d = d, self_d_cap = c, self_m = m, self_L = L,
             self_inW = W, self_inB = B, self_inZ = Z, self_inGamma = g,
             self_W = Some W', self_B = Some B', self_Z = Some Z', self_gamma = Some g,
             self_validInit = True,
             self_protoNNOut = None, self_predictions = None, self_accuracy = None,
             self_l2sim = None\<rparr> \<and>
    map int (shape W') = [d, c] \<and> map int (shape B') = [c, m] \<and> map int (shape Z') = [L, m]"
proof -
  let ?s0 = "\<lparr>self_d = d, self_d_cap = c, self_m = m, self_L = L,
              self_inW = W, self_inB = B, self_inZ = Z, self_inGamma = g,
              self_W = None, self_B = None, self_Z = None, self_gamma = None,
              self_validInit = False,
              self_protoNNOut = None, self_predictions = None, self_accuracy = None,
              self_l2sim = None\<rparr>"
  obtain r1 s1 where 1: "initWBZ rnd ?s0 = (r1, s1)"
    by (cases "initWBZ rnd ?s0")
  obtain u where r1: "r1 = Inr u"
    using i 1 by (cases r1) (simp_all add: init_def)
  obtain W' B' Z' where s1: "s1 = ?s0\<lparr>self_W := Some W', self_B := Some B', self_Z := Some Z'\<rparr>"
    and rk: "length (shape W') = 2" "length (shape B') = 2" "length (shape Z') = 2"
    using initWBZ_Inr [of rnd ?s0 u s1] 1 r1 mW mB mZ by auto
  let ?s2 = "s1\<lparr>self_gamma := Some g\<rparr>"
  have v: "validateInit ?s2 =
    (if map int (shape W') = [self_d ?s2, self_d_cap ?s2] \<and>
        map int (shape B') = [self_d_cap ?s2, self_m ?s2] \<and>
        map int (shape Z') = [self_L ?s2, self_m ?s2]
     then (Inr (), ?s2\<lparr>self_validInit := True\<rparr>)
     else (Inl (AssertionError errmsg), ?s2\<lparr>self_validInit := False\<rparr>))"
    by (rule validateInit_matrices) (simp_all add: s1 rk)
  have g: "initGamma s1 = (Inr (), ?s2)"
    by (simp add: initGamma_def s1)
  have i': "(case validateInit ?s2 of (Inl e, _) \<Rightarrow> Inl e
      | (Inr _, self) \<Rightarrow> Inr (self\<lparr>self_protoNNOut := None, self_predictions := None,
                                  self_accuracy := None\<rparr>)) = Inr self"
    using i by (simp add: init_def 1 r1 g)
  show ?thesis
  proof (cases "map int (shape W') = [d, c] \<and> map int (shape B') = [c, m] \<and>
                map int (shape Z') = [L, m]")
    case True
    then show ?thesis using i' unfolding v by (auto simp: s1)
  next
    case False
    then show ?thesis using i' unfolding v by (auto simp: s1)
  qed
qed


lemma argmax_list_less: "xs \<noteq> [] \<Longrightarrow> argmax_list xs < length xs"
  by (induction xs rule: argmax_list.induct) (simp_all add: Let_def)

lemma argmax_axis1_range:
  assumes "shape y = [n, L]" and "0 < L"
  shows "\<exists>p. argmax y 1 = Inr (Tensor [n] p) \<and> length p = n \<and> list_all (\<lambda>k. k < L) p"
proof -
  have "argmax_list (map (\<lambda>k. tget y [i, k]) [0..<L]) < L" for i
    using argmax_list_less [of "map (\<lambda>k. tget y [i, k]) [0..<L]"] assms(2) by simp
  then show ?thesis
    using argmax_axis1 [OF assms] by (auto simp: list_all_iff)
qed

lemma call_computes:
  assumes v: "self_validInit self" and out: "self_protoNNOut self = None"
    and W: "self_W self = Some W" "shape W = [d, c]"
    and B: "self_B self = Some B" "shape B = [c, m]"
    and Z: "self_Z self = Some Z" "shape Z = [L, m]"
    and g: "self_gamma self = Some g"
    and X: "shape X = [n, d]" and c: "0 < c" and L: "0 < L"
  shows "\<exists>l y p.
    shape y = [n, L] \<and> length (buf y) = n * L \<and>
    argmax y 1 = Inr (Tensor [n] p) \<and> length p = n \<and> list_all (\<lambda>k. k < L) p \<and>
    (\<forall>Y. call self X Y =
      (case Y of
         None \<Rightarrow>
           (Inr y, self\<lparr>self_l2sim := Some l, self_protoNNOut := Some y,
                        self_predictions := Some (Tensor [n] p)\<rparr>)
       | Some Y' \<Rightarrow>
           (case call_acc (Tensor [n] p) Y' of
              Inl e \<Rightarrow>
                (Inl e, self\<lparr>self_l2sim := Some l, self_protoNNOut := Some y,
                             self_predictions := Some (Tensor [n] p)\<rparr>)
            | Inr acc \<Rightarrow>
                (Inr y, self\<lparr>self_l2sim := Some l, self_protoNNOut := Some y,
                             self_predictions := Some (Tensor [n] p),
                             self_accuracy := Some acc\<rparr>))))"
proof -
  obtain l where l: "call_l2sim (Some W) (Some B) X = Inr l" "shape l = [n, Suc 0, m]"
    using call_l2sim_shape [OF X W(2) B(2) c] by blast
  obtain M where M: "call_M (Some g) l = Inr M" "shape M = [n, Suc 0, m]"
    using call_M_shape [of g l] l(2) by auto
  obtain y where y: "call_y (Some Z) M = Inr y" "shape y = [n, L]" "length (buf y) = n * L"
    using call_y_shape [OF Z(2) M(2)] by blast
  have My: "ebind (call_M (Some g) l) (call_y (Some Z)) = Inr y"
    by (simp add: ebind_def M y)
  obtain p where p: "argmax y 1 = Inr (Tensor [n] p)" "length p = n" "list_all (\<lambda>k. k < L) p"
    using argmax_axis1_range [OF y(2) L] by blast
  have a: "argmax y (Suc 0) = Inr (Tensor [n] p)"
    using p(1) by simp
  have "call self X Y =
      (case Y of
         None \<Rightarrow>
           (Inr y, self\<lparr>self_l2sim := Some l, self_protoNNOut := Some y,
                        self_predictions := Some (Tensor [n] p)\<rparr>)
       | Some Y' \<Rightarrow>
           (case call_acc (Tensor [n] p) Y' of
              Inl e \<Rightarrow>
                (Inl e, self\<lparr>self_l2sim := Some l, self_protoNNOut := Some y,
                             self_predictions := Some (Tensor [n] p)\<rparr>)
            | Inr acc \<Rightarrow>
                (Inr y, self\<lparr>self_l2sim := Some l, self_protoNNOut := Some y,
                             self_predictions := Some (Tensor [n] p),
                             self_accuracy := Some acc\<rparr>)))" for Y
    using v out by (simp add: call_def W(1) B(1) Z(1) g l(1) My a)
  with y(2,3) p show ?thesis by blast
qed

subsection \<open>The example instance, evaluated\<close>

lemmas example_defs =
  example_def example_called_def example_rnd_def example_W_def example_B_def example_Z_def
  example_X_def example_X2_def example_Y_def

lemma example_init:
  "init rnd 2 2 1 2 1 (Some example_W) (Some example_B) (Some example_Z) = Inr example"
  by (simp add: init_supplied example_defs)

lemma example_call: "call example example_X None = (Inr (Tensor [1, 2] [1, 0]), example_called)"
  by (simp add: example_defs call_def call_l2sim_def call_M_def call_y_def tensor_eval)

lemma example_call_Y:
  "call example example_X (Some example_Y) =
     (Inr (Tensor [1, 2] [1, 0]), example_called\<lparr>self_accuracy := Some (Val 1)\<rparr>)"
  by (simp add: example_defs call_def call_l2sim_def call_M_def call_y_def call_acc_def
      reduce_mean_def tensor_eval)

lemma call_cached:
  assumes "self_validInit self" and "self_protoNNOut self = Some out"
  shows "call self X Y = (Inr out, self)"
  using assms by (simp add: call_def)

lemma call_Inr_caches:
  assumes "call self X Y = (Inr out, self')"
  shows "self_validInit self' \<and> self_protoNNOut self' = Some out"
  using assms
  by (auto simp: call_def split: if_splits option.splits sum.splits)

lemma calls_cached:
  assumes "self_validInit self" and "self_protoNNOut self = Some out"
  shows "calls self cs = self"
  using assms by (induction cs) (auto simp: call_cached)

section \<open>Validation\<close>

lemma asserts_Inr: "asserts cs = Inr u \<longleftrightarrow> list_all (\<lambda>c. c = Inr ()) cs"
  by (induction cs rule: asserts.induct) simp_all

lemma assert_dim_Inr:
  "assert_dim t i v = Inr () \<longleftrightarrow>
     (\<exists>t'. t = Some t' \<and> i < length (shape t') \<and> int (shape t' ! i) = v)"
  by (cases t) (simp_all add: assert_dim_def shape_at_def ebind_def)

lemma validateInit_Inr:
  "fst (validateInit self) = Inr () \<longleftrightarrow>
     assert_dim (self_W self) 0 (self_d self) = Inr () \<and>
     assert_dim (self_W self) 1 (self_d_cap self) = Inr () \<and>
     assert_dim (self_B self) 0 (self_d_cap self) = Inr () \<and>
     assert_dim (self_B self) 1 (self_m self) = Inr () \<and>
     assert_dim (self_Z self) 0 (self_L self) = Inr () \<and>
     assert_dim (self_Z self) 1 (self_m self) = Inr ()"
proof -
  let ?a = "asserts
    [assert_dim (self_W self) 0 (self_d self), assert_dim (self_W self) 1 (self_d_cap self),
     assert_dim (self_B self) 0 (self_d_cap self), assert_dim (self_B self) 1 (self_m self),
     assert_dim (self_Z self) 0 (self_L self), assert_dim (self_Z self) 1 (self_m self)]"
  have "fst (validateInit self) = Inr () \<longleftrightarrow> ?a = Inr ()"
    by (cases ?a) (simp_all add: validateInit_def getHyperParams_def Let_def)
  then show ?thesis
    by (simp add: asserts_Inr)
qed

lemma validateInit_flag:
  "self_validInit (snd (validateInit self)) \<longleftrightarrow> fst (validateInit self) = Inr ()"
  by (simp add: validateInit_def getHyperParams_def Let_def split: sum.splits)

lemma init_validInit:
  assumes i: "init rnd d c m L g W B Z = Inr self"
  shows "self_validInit self"
proof -
  let ?s0 = "\<lparr>self_d = d, self_d_cap = c, self_m = m, self_L = L,
              self_inW = W, self_inB = B, self_inZ = Z, self_inGamma = g,
              self_W = None, self_B = None, self_Z = None, self_gamma = None,
              self_validInit = False,
              self_protoNNOut = None, self_predictions = None, self_accuracy = None,
              self_l2sim = None\<rparr>"
  obtain r1 s1 where 1: "initWBZ rnd ?s0 = (r1, s1)"
    by (cases "initWBZ rnd ?s0")
  obtain u where r1: "r1 = Inr u"
    using i 1 by (cases r1) (simp_all add: init_def)
  let ?s2 = "s1\<lparr>self_gamma := Some (self_inGamma s1)\<rparr>"
  obtain r3 s3 where 3: "validateInit ?s2 = (r3, s3)"
    by (cases "validateInit ?s2")
  have i': "(case (r3, s3) of (Inl e, _) \<Rightarrow> Inl e
      | (Inr _, self) \<Rightarrow> Inr (self\<lparr>self_protoNNOut := None, self_predictions := None,
                                  self_accuracy := None\<rparr>)) = Inr self"
    using i by (simp add: init_def 1 r1 initGamma_def 3)
  then obtain v where r3: "r3 = Inr v"
    by (cases r3) simp_all
  from validateInit_flag [of ?s2] have "self_validInit s3"
    by (simp add: 3 r3)
  with i' show ?thesis
    by (auto simp: r3)
qed

section \<open>The ways a call can go\<close>

lemma ebind_Inl: "ebind r f = Inl e \<longleftrightarrow> r = Inl e \<or> (\<exists>a. r = Inr a \<and> f a = Inl e)"
  by (cases r) (simp_all add: ebind_def)

lemma ebind_Inr: "ebind r f = Inr b \<longleftrightarrow> (\<exists>a. r = Inr a \<and> f a = Inr b)"
  by (cases r) (simp_all add: ebind_def)

lemma matmul_Inl: "matmul a b = Inl e \<Longrightarrow> raised_by_tf e"
  by (auto simp: matmul_def raised_by_tf_def split: list.splits if_splits)

lemma reshape_Inl: "reshape t dims = Inl e \<Longrightarrow> raised_by_tf e"
  by (auto simp: reshape_def raised_by_tf_def Let_def split: if_splits)

lemma shape_at_Inl: "shape_at t i = Inl e \<Longrightarrow> raised_by_tf e"
  by (auto simp: shape_at_def raised_by_tf_def split: if_splits)

lemma broadcast2_Inl: "broadcast2 f a b = Inl e \<Longrightarrow> raised_by_tf e"
  by (auto simp: broadcast2_def raised_by_tf_def split: option.splits)

lemma reduce_sum_Inl: "reduce_sum t axis k = Inl e \<Longrightarrow> raised_by_tf e"
  by (auto simp: reduce_sum_def raised_by_tf_def Let_def split: if_splits)

lemma argmax_Inl: "argmax t axis = Inl e \<Longrightarrow> raised_by_tf e"
  by (auto simp: argmax_def raised_by_tf_def Let_def split: if_splits)

lemma call_l2sim_Inl:
  assumes "call_l2sim W B X = Inl e"
  shows "raised_by_tf e"
proof -
  have W: "(case W of None \<Rightarrow> Inl ValueError | Some W' \<Rightarrow> matmul X W') = Inl e' \<Longrightarrow> raised_by_tf e'"
    for e'
    by (cases W) (auto simp: raised_by_tf_def dest: matmul_Inl)
  have B: "(case B of None \<Rightarrow> Inl AttributeError | Some B' \<Rightarrow> Inr B') = Inl e' \<Longrightarrow> raised_by_tf e'"
    for e'
    by (cases B) (auto simp: raised_by_tf_def)
  from assms show ?thesis
    unfolding call_l2sim_def ebind_Inl Let_def
    by (blast dest: W B shape_at_Inl reshape_Inl broadcast2_Inl reduce_sum_Inl)
qed

lemma call_M_Inl: "call_M g l = Inl e \<Longrightarrow> raised_by_tf e"
  by (cases g) (simp_all add: call_M_def raised_by_tf_def)

lemma call_y_Inl:
  assumes "call_y Z M = Inl e"
  shows "raised_by_tf e"
proof -
  have Z: "(case Z of None \<Rightarrow> Inl AttributeError | Some Z' \<Rightarrow> reshape Z' (1 # map int (shape Z')))
             = Inl e' \<Longrightarrow> raised_by_tf e'" for e'
    by (cases Z) (auto simp: raised_by_tf_def dest: reshape_Inl)
  from assms show ?thesis
    unfolding call_y_def ebind_Inl
    by (blast dest: Z broadcast2_Inl reduce_sum_Inl)
qed

lemma call_acc_Inl: "call_acc p Y = Inl e \<Longrightarrow> raised_by_tf e"
  unfolding call_acc_def ebind_Inl
  by (auto dest: argmax_Inl broadcast2_Inl)

lemma call_cases [consumes 0, case_names uninit cached fail_l2sim fail_y fail_argmax ok fail_acc ok_acc]:
  obtains
    (uninit) "\<not> self_validInit self"
      "call self X Y = (Inl (AssertionError ''Initialization failed!''), self)"
  | (cached) out where "self_validInit self" "self_protoNNOut self = Some out"
      "call self X Y = (Inr out, self)"
  | (fail_l2sim) e where "self_validInit self" "self_protoNNOut self = None" "raised_by_tf e"
      "call self X Y = (Inl e, self)"
  | (fail_y) e l where "self_validInit self" "self_protoNNOut self = None" "raised_by_tf e"
      "call self X Y = (Inl e, self\<lparr>self_l2sim := Some l\<rparr>)"
  | (fail_argmax) e l y where "self_validInit self" "self_protoNNOut self = None"
      "raised_by_tf e"
      "call self X Y = (Inl e, self\<lparr>self_l2sim := Some l, self_protoNNOut := Some y\<rparr>)"
  | (ok) l y p where "self_validInit self" "self_protoNNOut self = None" "Y = None"
      "call self X Y =
         (Inr y, self\<lparr>self_l2sim := Some l, self_protoNNOut := Some y,
                      self_predictions := Some p\<rparr>)"
  | (fail_acc) e l y p Y' where "self_validInit self" "self_protoNNOut self = None"
      "Y = Some Y'" "raised_by_tf e"
      "call self X Y =
         (Inl e, self\<lparr>self_l2sim := Some l, self_protoNNOut := Some y,
                      self_predictions := Some p\<rparr>)"
  | (ok_acc) l y p Y' acc where "self_validInit self" "self_protoNNOut self = None"
      "Y = Some Y'"
      "call self X Y =
         (Inr y, self\<lparr>self_l2sim := Some l, self_protoNNOut := Some y,
                      self_predictions := Some p, self_accuracy := Some acc\<rparr>)"
proof (cases "self_validInit self")
  case False
  then have "call self X Y = (Inl (AssertionError ''Initialization failed!''), self)"
    by (simp add: call_def)
  with False show ?thesis by (rule uninit)
next
  case v: True
  show ?thesis
  proof (cases "self_protoNNOut self")
    case (Some out)
    with v have "call self X Y = (Inr out, self)"
      by (simp add: call_def)
    with v Some show ?thesis by (rule cached)
  next
    case o: None
    show ?thesis
    proof (cases "call_l2sim (self_W self) (self_B self) X")
      case (Inl e)
      with v o have "call self X Y = (Inl e, self)"
        by (simp add: call_def)
      with v o call_l2sim_Inl [OF Inl] show ?thesis by (rule fail_l2sim)
    next
      case l: (Inr l)
      show ?thesis
      proof (cases "ebind (call_M (self_gamma self) l) (call_y (self_Z self))")
        case (Inl e)
        then have "raised_by_tf e"
          unfolding ebind_Inl by (blast dest: call_M_Inl call_y_Inl)
        moreover from v o l Inl have "call self X Y = (Inl e, self\<lparr>self_l2sim := Some l\<rparr>)"
          by (simp add: call_def)
        ultimately show ?thesis using v o by (blast intro: fail_y)
      next
        case y: (Inr y)
        show ?thesis
        proof (cases "argmax y (Suc 0)")
          case (Inl e)
          with v o l y have "call self X Y =
              (Inl e, self\<lparr>self_l2sim := Some l, self_protoNNOut := Some y\<rparr>)"
            by (simp add: call_def)
          with v o argmax_Inl [OF Inl] show ?thesis by (rule fail_argmax)
        next
          case p: (Inr p)
          show ?thesis
          proof (cases Y)
            case None
            with v o l y p have "call self X Y =
              (Inr y, self\<lparr>self_l2sim := Some l, self_protoNNOut := Some y,
                           self_predictions := Some p\<rparr>)"
              by (simp add: call_def)
            with v o None show ?thesis by (rule ok)
          next
            case Y: (Some Y')
            show ?thesis
            proof (cases "call_acc p Y'")
              case (Inl e)
              with v o l y p Y have "call self X Y =
                (Inl e, self\<lparr>self_l2sim := Some l, self_protoNNOut := Some y,
                             self_predictions := Some p\<rparr>)"
                by (simp add: call_def)
              with v o Y call_acc_Inl [OF Inl] show ?thesis by (rule fail_acc)
            next
              case (Inr acc)
              with v o l y p Y have "call self X Y =
                (Inr y, self\<lparr>self_l2sim := Some l, self_protoNNOut := Some y,
                             self_predictions := Some p, self_accuracy := Some acc\<rparr>)"
                by (simp add: call_def)
              with v o Y show ?thesis by (rule ok_acc)
            qed
          qed
        qed
      qed
    qed
  qed
qed

lemma call_validInit: "self_validInit (snd (call self X Y)) = self_validInit self"
proof (cases rule: call_cases [of self X Y])
  case uninit
  then show ?thesis by simp
next
  case (cached out)
  then show ?thesis by simp
next
  case (fail_l2sim e)
  then show ?thesis by simp
next
  case (fail_y e l)
  then show ?thesis by simp
next
  case (fail_argmax e l y)
  then show ?thesis by simp
next
  case (ok l y p)
  then show ?thesis by simp
next
  case (fail_acc e l y p Y')
  then show ?thesis by simp
next
  case (ok_acc l y p Y' acc)
  then show ?thesis by simp
qed


lemma calls_validInit: "self_validInit (calls self cs) = self_validInit self"
proof (induction cs arbitrary: self)
  case Nil
  show ?case by simp
next
  case (Cons c cs)
  obtain X Y where c: "c = (X, Y)" by (cases c)
  show ?case by (simp add: c Cons call_validInit)
qed


lemma call_uninitialized:
  "fst (call self X Y) = Inl (AssertionError ''Initialization failed!'') \<longleftrightarrow>
   \<not> self_validInit self"
proof (cases rule: call_cases [of self X Y])
  case uninit
  then show ?thesis by simp
next
  case (cached out)
  then show ?thesis by simp
next
  case (fail_l2sim e)
  then show ?thesis by (auto simp: raised_by_tf_def)
next
  case (fail_y e l)
  then show ?thesis by (auto simp: raised_by_tf_def)
next
  case (fail_argmax e l y)
  then show ?thesis by (auto simp: raised_by_tf_def)
next
  case (ok l y p)
  then show ?thesis by simp
next
  case (fail_acc e l y p Y')
  then show ?thesis by (auto simp: raised_by_tf_def)
next
  case (ok_acc l y p Y' acc)
  then show ?thesis by simp
qed

section \<open>What a call returns, and construction, in one equation each\<close>

lemma fst_call:
  "fst (call self X Y) =
     (if \<not> self_validInit self then Inl (AssertionError ''Initialization failed!'')
      else case self_protoNNOut self of
        Some out \<Rightarrow> Inr out
      | None \<Rightarrow>
          ebind (call_l2sim (self_W self) (self_B self) X) (\<lambda>l.
          ebind (ebind (call_M (self_gamma self) l) (call_y (self_Z self))) (\<lambda>y.
          ebind (argmax y 1) (\<lambda>p.
          case Y of None \<Rightarrow> Inr y | Some Y' \<Rightarrow> ebind (call_acc p Y') (\<lambda>acc. Inr y)))))"
  by (simp add: call_def ebind_def split: sum.splits option.splits)

lemma call_M_neg: "call_M (Some (- g)) l = call_M (Some g) l"
  by (simp add: call_M_def)

lemma call_gamma_sign:
  "fst (call (self\<lparr>self_inGamma := a, self_gamma := Some (- g)\<rparr>) X Y) =
   fst (call (self\<lparr>self_inGamma := b, self_gamma := Some g\<rparr>) X Y)"
  by (simp add: fst_call call_M_neg split: option.splits)

lemma init_unfold:
  "init rnd d c m L g W B Z =
     ebind (case W of None \<Rightarrow> initializer (normal_W rnd) [d, c] | Some t \<Rightarrow> Inr t) (\<lambda>W'.
     ebind (case B of None \<Rightarrow> initializer (uniform_B rnd) [c, m] | Some t \<Rightarrow> Inr t) (\<lambda>B'.
     ebind (case Z of None \<Rightarrow> initializer (normal_Z rnd) [L, m] | Some t \<Rightarrow> Inr t) (\<lambda>Z'.
     ebind (asserts
              [assert_dim (Some W') 0 d, assert_dim (Some W') 1 c,
               assert_dim (Some B') 0 c, assert_dim (Some B') 1 m,
               assert_dim (Some Z') 0 L, assert_dim (Some Z') 1 m]) (\<lambda>u.
     Inr \<lparr>self_d = d, self_d_cap = c, self_m = m, self_L = L,
           self_inW = W, self_inB = B, self_inZ = Z, self_inGamma = g,
           self_W = Some W', self_B = Some B', self_Z = Some Z', self_gamma = Some g,
           self_validInit = True,
           self_protoNNOut = None, self_predictions = None, self_accuracy = None,
           self_l2sim = None\<rparr>))))"
proof -
  let ?pW = "case W of None \<Rightarrow> initializer (normal_W rnd) [d, c] | Some t \<Rightarrow> Inr t"
  let ?pB = "case B of None \<Rightarrow> initializer (uniform_B rnd) [c, m] | Some t \<Rightarrow> Inr t"
  let ?pZ = "case Z of None \<Rightarrow> initializer (normal_Z rnd) [L, m] | Some t \<Rightarrow> Inr t"
  show ?thesis
  proof (cases ?pW)
    case (Inl e)
    then show ?thesis by (simp add: init_def initWBZ_def ebind_def Let_def cong: option.case_cong)
  next
    case W': (Inr W')
    show ?thesis
    proof (cases ?pB)
      case (Inl e)
      then show ?thesis by (simp add: init_def initWBZ_def ebind_def Let_def W' cong: option.case_cong)
    next
      case B': (Inr B')
      show ?thesis
      proof (cases ?pZ)
        case (Inl e)
        then show ?thesis by (simp add: init_def initWBZ_def ebind_def Let_def W' B' cong: option.case_cong)
      next
        case Z': (Inr Z')
        show ?thesis
          by (cases "asserts
              [assert_dim (Some W') 0 d, assert_dim (Some W') 1 c,
               assert_dim (Some B') 0 c, assert_dim (Some B') 1 m,
               assert_dim (Some Z') 0 L, assert_dim (Some Z') 1 m]")
            (simp_all add: init_def initWBZ_def initGamma_def validateInit_def
              getHyperParams_def ebind_def Let_def W' B' Z' cong: option.case_cong)
      qed
    qed
  qed
qed

section \<open>Fresh instances and calls without labels\<close>

lemma init_fresh:
  assumes "init rnd d c m L g W B Z = Inr self"
  shows "self_validInit self \<and> self_protoNNOut self = None \<and> self_predictions self = None \<and>
         self_accuracy self = None"
  using assms unfolding init_unfold ebind_Inr by auto

lemma call_None_accuracy: "self_accuracy (snd (call self X None)) = self_accuracy self"
proof (cases rule: call_cases [of self X None])
  case uninit
  then show ?thesis by simp
next
  case (cached out)
  then show ?thesis by simp
next
  case (fail_l2sim e)
  then show ?thesis by simp
next
  case (fail_y e l)
  then show ?thesis by simp
next
  case (fail_argmax e l y)
  then show ?thesis by simp
next
  case (ok l y p)
  then show ?thesis by simp
next
  case (fail_acc e l y p Y')
  then show ?thesis by simp
next
  case (ok_acc l y p Y' acc)
  then show ?thesis by simp
qed

section \<open>Instances reached by calls\<close>

lemma call_frame:
  "self_W (snd (call self X Y)) = self_W self \<and> self_B (snd (call self X Y)) = self_B self \<and>
   self_Z (snd (call self X Y)) = self_Z self \<and>
   self_gamma (snd (call self X Y)) = self_gamma self"
proof (cases rule: call_cases [of self X Y])
  case uninit
  then show ?thesis by simp
next
  case (cached out)
  then show ?thesis by simp
next
  case (fail_l2sim e)
  then show ?thesis by simp
next
  case (fail_y e l)
  then show ?thesis by simp
next
  case (fail_argmax e l y)
  then show ?thesis by simp
next
  case (ok l y p)
  then show ?thesis by simp
next
  case (fail_acc e l y p Y')
  then show ?thesis by simp
next
  case (ok_acc l y p Y' acc)
  then show ?thesis by simp
qed

lemma calls_frame:
  "self_W (calls self cs) = self_W self \<and> self_B (calls self cs) = self_B self \<and>
   self_Z (calls self cs) = self_Z self \<and> self_gamma (calls self cs) = self_gamma self"
proof (induction cs arbitrary: self)
  case Nil
  show ?case by simp
next
  case (Cons c cs)
  obtain X Y where c: "c = (X, Y)" by (cases c)
  show ?case using Cons [of "snd (call self X Y)"] call_frame [of self X Y] by (simp add: c)
qed

lemma shape_of_ints: "map int sh = [a, b] \<Longrightarrow> sh = [nat a, nat b]"
  by (cases sh; simp; case_tac list; auto)

lemma reached_computes:
  assumes init: "init rnd d d_cap m L gamma W B Z = Inr self0"
    and mats: "is_matrix W" "is_matrix B" "is_matrix Z"
    and pos: "0 < d_cap" "0 < L"
    and self: "self = calls self0 cs" and fresh: "self_protoNNOut self = None"
    and X: "shape X = [n, nat d]"
  shows "\<exists>l y p.
    shape y = [n, nat L] \<and> length (buf y) = n * nat L \<and>
    argmax y 1 = Inr (Tensor [n] p) \<and> length p = n \<and> list_all (\<lambda>k. k < nat L) p \<and>
    (\<forall>Y. call self X Y =
      (case Y of
         None \<Rightarrow>
           (Inr y, self\<lparr>self_l2sim := Some l, self_protoNNOut := Some y,
                        self_predictions := Some (Tensor [n] p)\<rparr>)
       | Some Y' \<Rightarrow>
           (case call_acc (Tensor [n] p) Y' of
              Inl e \<Rightarrow>
                (Inl e, self\<lparr>self_l2sim := Some l, self_protoNNOut := Some y,
                             self_predictions := Some (Tensor [n] p)\<rparr>)
            | Inr acc \<Rightarrow>
                (Inr y, self\<lparr>self_l2sim := Some l, self_protoNNOut := Some y,
                             self_predictions := Some (Tensor [n] p),
                             self_accuracy := Some acc\<rparr>))))"
proof -
  from init_Inr [OF init mats] obtain W' B' Z' where
    f: "self_W self0 = Some W'" "self_B self0 = Some B'" "self_Z self0 = Some Z'"
       "self_gamma self0 = Some gamma" "self_validInit self0"
    and s: "map int (shape W') = [d, d_cap]" "map int (shape B') = [d_cap, m]"
       "map int (shape Z') = [L, m]"
    by auto
  have sh: "shape W' = [nat d, nat d_cap]" "shape B' = [nat d_cap, nat m]"
    "shape Z' = [nat L, nat m]"
    using s by (auto dest: shape_of_ints)
  have g: "self_W self = Some W'" "self_B self = Some B'" "self_Z self = Some Z'"
    "self_gamma self = Some gamma" "self_validInit self"
    using calls_frame [of self0 cs] calls_validInit [of self0 cs] f by (simp_all add: self)
  have c: "0 < nat d_cap" and L: "0 < nat L"
    using pos by simp_all
  show ?thesis
    by (rule call_computes [OF g(5) fresh g(1) sh(1) g(2) sh(2) g(3) sh(3) g(4) X c L])
qed

section \<open>One-hot labels and the mean of indicators\<close>

lemma concat_rows_nth:
  assumes "\<forall>r\<in>set rows. length r = L" and "i < length rows" and "k < L"
  shows "concat rows ! (i * L + k) = rows ! i ! k"
  using assms
proof (induction rows arbitrary: i)
  case Nil
  then show ?case by simp
next
  case (Cons r rows)
  show ?case
  proof (cases i)
    case 0
    then show ?thesis using Cons.prems by (simp add: nth_append)
  next
    case (Suc j)
    then have "concat rows ! (j * L + k) = rows ! j ! k"
      using Cons.IH [of j] Cons.prems by simp
    then show ?thesis using Cons.prems Suc by (simp add: nth_append)
  qed
qed

lemma argmax_list_indicator:
  assumes "l < length xs" and "xs ! l = 1" and "\<forall>j<length xs. j \<noteq> l \<longrightarrow> xs ! j = 0"
  shows "argmax_list xs = l"
  using assms
proof (induction xs arbitrary: l rule: argmax_list.induct)
  case 1
  then show ?case by simp
next
  case (2 x)
  then show ?case by simp
next
  case (3 x y ys)
  let ?j = "argmax_list (y # ys)"
  have j: "?j < length (y # ys)"
    by (rule argmax_list_less) simp
  show ?case
  proof (cases l)
    case 0
    then have "x = 1" using "3.prems" by simp
    moreover have "(y # ys) ! ?j = 0"
      using "3.prems"(3) [rule_format, of "Suc ?j"] j 0 by simp
    ultimately show ?thesis using 0 by (simp add: Let_def)
  next
    case (Suc l')
    have "x = 0"
      using "3.prems"(3) [rule_format, of 0] Suc by simp
    moreover have "?j = l'"
    proof (rule "3.IH")
      show "l' < length (y # ys)" using "3.prems"(1) Suc by simp
      show "(y # ys) ! l' = 1" using "3.prems"(2) Suc by simp
      show "\<forall>j<length (y # ys). j \<noteq> l' \<longrightarrow> (y # ys) ! j = 0"
        using "3.prems"(3) Suc by (auto dest: spec [where x = "Suc j" for j])
    qed
    moreover have "(y # ys) ! l' = 1" using "3.prems"(2) Suc by simp
    ultimately show ?thesis using Suc by (simp add: Let_def)
  qed
qed

lemma argmax_indicator_upt:
  assumes "l < L"
  shows "argmax_list (map (\<lambda>k. if k = l then 1 else (0::real)) [0..<L]) = l"
proof (rule argmax_list_indicator)
  show "l < length (map (\<lambda>k. if k = l then 1 else (0::real)) [0..<L])"
    using assms by simp
  show "map (\<lambda>k. if k = l then 1 else (0::real)) [0..<L] ! l = 1"
    using assms by simp
  show "\<forall>j<length (map (\<lambda>k. if k = l then 1 else (0::real)) [0..<L]). j \<noteq> l \<longrightarrow>
    map (\<lambda>k. if k = l then 1 else (0::real)) [0..<L] ! j = 0"
    by simp
qed

lemma argmax_one_hot:
  assumes L: "0 < L" and lab: "list_all (\<lambda>k. k < L) labels"
  shows "argmax (one_hot L labels) 1 = Inr (Tensor [length labels] labels)"
proof -
  let ?Y = "one_hot L labels"
  let ?rows = "map (\<lambda>k. map (\<lambda>j. if j = k then 1 else (0::real)) [0..<L]) labels"
  have sh: "shape ?Y = [length labels, L]"
    by (simp add: one_hot_def)
  have g: "tget ?Y [i, k] = (if k = labels ! i then 1 else 0)"
    if "i < length labels" "k < L" for i k
  proof -
    have "tget ?Y [i, k] = concat ?rows ! (i * L + k)"
      by (simp add: tget_def one_hot_def numel_def)
    also have "\<dots> = ?rows ! i ! k"
      by (rule concat_rows_nth) (use that in auto)
    finally show ?thesis using that by simp
  qed
  have "argmax_list (map (\<lambda>k. tget ?Y [i, k]) [0..<L]) = labels ! i"
    if i: "i < length labels" for i
  proof -
    have l: "labels ! i < L"
      using lab i by (simp add: list_all_length)
    have eq: "map (\<lambda>k. tget ?Y [i, k]) [0..<L] =
          map (\<lambda>k. if k = labels ! i then 1 else (0::real)) [0..<L]"
      by (rule map_cong) (simp_all add: g i)
    have "argmax_list (map (\<lambda>k. tget ?Y [i, k]) [0..<L]) =
          argmax_list (map (\<lambda>k. if k = labels ! i then 1 else (0::real)) [0..<L])"
      by (rule arg_cong [OF eq])
    also have "\<dots> = labels ! i"
      by (rule argmax_indicator_upt [OF l])
    finally show ?thesis .
  qed
  then have m: "map (\<lambda>i. argmax_list (map (\<lambda>k. tget ?Y [i, k]) [0..<L])) [0..<length labels] =
    labels"
    by (intro nth_equalityI) simp_all
  show ?thesis
    by (simp only: argmax_axis1 [OF sh L] m)
qed

lemma indicator_sum_bounds:
  "0 \<le> (\<Sum>i\<leftarrow>xs. if P i then 1 else (0::real)) \<and>
   (\<Sum>i\<leftarrow>xs. if P i then 1 else (0::real)) \<le> real (length xs)"
  by (induction xs) auto

lemma indicator_sum_all:
  "\<forall>i\<in>set xs. P i \<Longrightarrow> (\<Sum>i\<leftarrow>xs. if P i then 1 else (0::real)) = real (length xs)"
  by (induction xs) auto

lemma indicator_sum_none:
  "\<forall>i\<in>set xs. \<not> P i \<Longrightarrow> (\<Sum>i\<leftarrow>xs. if P i then 1 else (0::real)) = 0"
  by (induction xs) auto

lemma calls_None_accuracy:
  "list_all (\<lambda>c. snd c = None) cs \<Longrightarrow> self_accuracy (calls self cs) = self_accuracy self"
proof (induction cs arbitrary: self)
  case Nil
  show ?case by simp
next
  case (Cons c cs)
  obtain X where c: "c = (X, None)" using Cons.prems by (cases c) simp
  show ?case using Cons c by (simp add: call_None_accuracy)
qed

lemma example_later_labels:
  "calls example [(example_X, None), (example_X, Some example_Y)] = example_called"
proof -
  have "call example_called example_X (Some example_Y) =
    (Inr (Tensor [1, 2] [1, 0]), example_called)"
    by (rule call_cached) (simp_all add: example_defs)
  then show ?thesis
    by (simp add: example_call)
qed

section \<open>The numeric example\<close>

text \<open>
  C1. The model with \<open>d = 2\<close>, \<open>d_cap = 2\<close>, \<open>m = 1\<close>, \<open>L = 2\<close>, \<open>W\<close> the identity,
  \<open>B = [[0],[0]]\<close>, \<open>Z = [[1],[0]]\<close> and \<open>gamma = 1\<close> is constructed without error, and
  its forward computation on \<open>X = [[0,0]]\<close> goes through the projection \<open>[[0,0]]\<close>, the
  squared distance \<open>l2sim = 0\<close>, the kernel weight \<open>1\<close> (the kernel being
  \<open>exp (- gamma\<^sup>2 * l2sim)\<close> for every \<open>gamma\<close> and \<open>l2sim\<close>) and the sum weighted
  by \<open>Z\<close>, to the scores \<open>[[1,0]]\<close> and the predictions \<open>[0]\<close>.
\<close>

theorem numeric_example:
  "\<exists>self self'.
     init rnd 2 2 1 2 1 (Some (Tensor [2, 2] [1, 0, 0, 1])) (Some (Tensor [2, 1] [0, 0]))
       (Some (Tensor [2, 1] [1, 0])) = Inr self \<and>
     matmul (Tensor [1, 2] [0, 0]) (Tensor [2, 2] [1, 0, 0, 1]) = Inr (Tensor [1, 2] [0, 0]) \<and>
     call_l2sim (self_W self) (self_B self) (Tensor [1, 2] [0, 0]) = Inr (Tensor [1, 1, 1] [0]) \<and>
     call_M (self_gamma self) (Tensor [1, 1, 1] [0]) = Inr (Tensor [1, 1, 1] [1]) \<and>
     call_M (Some g) l2sim = Inr (tmap (\<lambda>x. exp (- (g ^ 2) * x)) l2sim) \<and>
     call_y (self_Z self) (Tensor [1, 1, 1] [1]) = Inr (Tensor [1, 2] [1, 0]) \<and>
     call self (Tensor [1, 2] [0, 0]) None = (Inr (Tensor [1, 2] [1, 0]), self') \<and>
     self_l2sim self' = Some (Tensor [1, 1, 1] [0]) \<and>
     self_protoNNOut self' = Some (Tensor [1, 2] [1, 0]) \<and>
     getPredictionsOp self' = Some (Tensor [1] [0])"
  by (simp add: init_eval call_def call_l2sim_def call_M_def call_y_def getPredictionsOp_def
      tensor_eval power2_eq_square)

section \<open>Memoization\<close>

text \<open>
  C2. Once a call has returned scores, every further call on the instance, with the
  same input or any other input and labels, returns those same scores and leaves the
  instance as it is; so does any sequence of further calls: the instance holds the one
  output it computed.
\<close>

theorem call_memoized:
  assumes "call self X Y = (Inr out, self')"
  shows "call self' X' Y' = (Inr out, self') \<and> calls self' cs = self'"
  using call_Inr_caches [OF assms] by (simp add: call_cached calls_cached)

theorem call_memoized_witness:
  "call example example_X None = (Inr (Tensor [1, 2] [1, 0]), example_called) \<and>
   call example_called example_X None = (Inr (Tensor [1, 2] [1, 0]), example_called) \<and>
   call example_called example_X2 (Some example_Y) = (Inr (Tensor [1, 2] [1, 0]), example_called) \<and>
   calls example_called [(example_X2, None), (example_X, Some example_Y)] = example_called"
  using call_memoized [OF example_call, of example_X None]
    call_memoized [OF example_call, of example_X2 "Some example_Y"
      "[(example_X2, None), (example_X, Some example_Y)]"]
    example_call
  by simp

section \<open>Construction\<close>

text \<open>
  C4. When \<open>W\<close>, \<open>B\<close> and \<open>Z\<close> are supplied as matrices and the shape of one of them
  is not the declared one (\<open>W\<close> not \<open>[d, d_cap]\<close>, or \<open>B\<close> not \<open>[d_cap, m]\<close>, or \<open>Z\<close>
  not \<open>[L, m]\<close>), \<^verbatim>\<open>__init__\<close> raises the assertion error of \<^verbatim>\<open>__validateInit\<close>: no
  instance is returned, and the message names the expected shapes.
\<close>

theorem init_dimension_mismatch:
  assumes "length (shape W) = 2" and "length (shape B) = 2" and "length (shape Z) = 2"
    and "map int (shape W) \<noteq> [d, d_cap] \<or> map int (shape B) \<noteq> [d_cap, m] \<or>
         map int (shape Z) \<noteq> [L, m]"
  shows "init rnd d d_cap m L gamma (Some W) (Some B) (Some Z) = Inl (AssertionError errmsg) \<and>
         errmsg = ''Dimensions mismatch! Should be W[d, d_cap], B[d_cap, m] and Z[L, m]''"
  using assms(4) by (auto simp: init_supplied [OF assms(1-3)] errmsg_def)

theorem init_dimension_mismatch_witness:
  "init example_rnd 2 2 1 2 1 (Some example_W) (Some (Tensor [2, 3] [0, 0, 0, 0, 0, 0]))
     (Some example_Z) =
   Inl (AssertionError ''Dimensions mismatch! Should be W[d, d_cap], B[d_cap, m] and Z[L, m]'')"
  using init_dimension_mismatch [of example_W "Tensor [2, 3] [0, 0, 0, 0, 0, 0]" example_Z
      2 2 1 2 example_rnd 1]
  by (simp add: example_defs)



section \<open>The sign of gamma\<close>

text \<open>
  C3. For all \<open>W\<close>, \<open>B\<close>, \<open>Z\<close> (supplied or not), every input \<open>X\<close> and every real
  \<open>g\<close>: constructing the model with \<open>gamma = g\<close> and calling it on \<open>X\<close> has the same
  outcome as constructing it with \<open>gamma = - g\<close> and calling it on \<open>X\<close>; the same scores,
  or else the same error of the construction or of the call.
\<close>

theorem gamma_sign:
  "map_sum id (\<lambda>self. fst (call self X Y)) (init rnd d d_cap m L g W B Z) =
   map_sum id (\<lambda>self. fst (call self X Y)) (init rnd d d_cap m L (- g) W B Z)"
proof -
  have "fst (call (self\<lparr>self_inGamma := - g, self_gamma := Some (- g)\<rparr>) X Y) =
        fst (call (self\<lparr>self_inGamma := g, self_gamma := Some g\<rparr>) X Y)" for self
    by (rule call_gamma_sign)
  then show ?thesis
    unfolding init_unfold
    by (simp add: ebind_def fst_call call_M_neg split: sum.splits)
qed

theorem gamma_sign_witness:
  "map_sum id (\<lambda>self. fst (call self example_X None))
     (init example_rnd 2 2 1 2 (- 1) (Some example_W) (Some example_B) (Some example_Z)) =
   Inr (Inr (Tensor [1, 2] [1, 0]))"
  using gamma_sign [of example_X None example_rnd 2 2 1 2 1 "Some example_W"
      "Some example_B" "Some example_Z"]
  by (simp add: example_init example_call)

section \<open>The validity flag\<close>

text \<open>
  C9. \<^verbatim>\<open>__validateInit\<close> leaves the flag true exactly when it does not raise, which
  is exactly when all six shape checks pass; \<^verbatim>\<open>__call__\<close> raises the assertion error
  "Initialization failed!" exactly when the flag is false, and then leaves the instance
  as it is. So on every instance that \<^verbatim>\<open>__init__\<close> returned, also after any sequence
  of calls, the flag is true and the precondition check of \<^verbatim>\<open>__call__\<close> does not fail.
\<close>

theorem validity_flag:
  "(self_validInit (snd (validateInit self)) \<longleftrightarrow> fst (validateInit self) = Inr ()) \<and>
   (fst (validateInit self) = Inr () \<longleftrightarrow>
      (\<exists>W B Z. self_W self = Some W \<and> self_B self = Some B \<and> self_Z self = Some Z \<and>
         1 < length (shape W) \<and> 1 < length (shape B) \<and> 1 < length (shape Z) \<and>
         int (shape W ! 0) = self_d self \<and> int (shape W ! 1) = self_d_cap self \<and>
         int (shape B ! 0) = self_d_cap self \<and> int (shape B ! 1) = self_m self \<and>
         int (shape Z ! 0) = self_L self \<and> int (shape Z ! 1) = self_m self)) \<and>
   (fst (call self X Y) = Inl (AssertionError ''Initialization failed!'') \<longleftrightarrow>
      \<not> self_validInit self) \<and>
   (\<not> self_validInit self \<longrightarrow>
      call self X Y = (Inl (AssertionError ''Initialization failed!''), self)) \<and>
   (init rnd d d_cap m L gamma W0 B0 Z0 = Inr self' \<longrightarrow>
      self_validInit (calls self' cs) \<and>
      fst (call (calls self' cs) X' Y') \<noteq> Inl (AssertionError ''Initialization failed!''))"
proof (intro conjI impI)
  show "self_validInit (snd (validateInit self)) \<longleftrightarrow> fst (validateInit self) = Inr ()"
    by (rule validateInit_flag)
  show "fst (validateInit self) = Inr () \<longleftrightarrow>
      (\<exists>W B Z. self_W self = Some W \<and> self_B self = Some B \<and> self_Z self = Some Z \<and>
         1 < length (shape W) \<and> 1 < length (shape B) \<and> 1 < length (shape Z) \<and>
         int (shape W ! 0) = self_d self \<and> int (shape W ! 1) = self_d_cap self \<and>
         int (shape B ! 0) = self_d_cap self \<and> int (shape B ! 1) = self_m self \<and>
         int (shape Z ! 0) = self_L self \<and> int (shape Z ! 1) = self_m self)"
    unfolding validateInit_Inr assert_dim_Inr by auto
  show "fst (call self X Y) = Inl (AssertionError ''Initialization failed!'') \<longleftrightarrow>
      \<not> self_validInit self"
    by (rule call_uninitialized)
  show "call self X Y = (Inl (AssertionError ''Initialization failed!''), self)"
    if "\<not> self_validInit self"
    using that by (simp add: call_def)
  show "self_validInit (calls self' cs)"
    if "init rnd d d_cap m L gamma W0 B0 Z0 = Inr self'"
    using init_fresh [OF that] by (simp add: calls_validInit)
  then show "fst (call (calls self' cs) X' Y') \<noteq> Inl (AssertionError ''Initialization failed!'')"
    if "init rnd d d_cap m L gamma W0 B0 Z0 = Inr self'"
    using that by (simp add: call_uninitialized)
qed

theorem validity_flag_witness:
  "self_validInit (snd (validateInit example)) \<and>
   fst (validateInit example) = Inr () \<and>
   \<not> self_validInit (snd (validateInit (example\<lparr>self_Z := Some example_W\<rparr>))) \<and>
   call (example\<lparr>self_validInit := False\<rparr>) example_X None =
     (Inl (AssertionError ''Initialization failed!''), example\<lparr>self_validInit := False\<rparr>) \<and>
   self_validInit (calls example [(example_X, None)]) \<and>
   fst (call (calls example [(example_X, None)]) example_X2 None) \<noteq>
     Inl (AssertionError ''Initialization failed!'')"
proof -
  have 1: "fst (validateInit example) = Inr ()"
    by (simp add: example_defs validateInit_def getHyperParams_def assert_dim_def shape_at_def
        ebind_def)
  have 2: "fst (validateInit (example\<lparr>self_Z := Some example_W\<rparr>)) \<noteq> Inr ()"
    by (simp add: example_defs validateInit_def getHyperParams_def assert_dim_def shape_at_def
        ebind_def)
  have 3: "\<not> self_validInit (example\<lparr>self_validInit := False\<rparr>)"
    by simp
  have 4: "init example_rnd 2 2 1 2 1 (Some example_W) (Some example_B) (Some example_Z) =
    Inr example"
    by (rule example_init)
  show ?thesis
    using validity_flag [of example example_X None example_rnd 2 2 1 2 1 "Some example_W"
        "Some example_B" "Some example_Z" example "[(example_X, None)]" example_X2 None]
      validity_flag [of "example\<lparr>self_Z := Some example_W\<rparr>"]
      validity_flag [of "example\<lparr>self_validInit := False\<rparr>" example_X None]
      1 2 3 4
    by simp
qed

section \<open>Labels given to a later call\<close>

text \<open>
  C10. If the first call on a constructed instance was made without \<open>Y\<close> and returned
  scores, then a later call with \<open>Y\<close> returns those memoized scores and leaves the
  instance as it is: no accuracy is cached, and \<^verbatim>\<open>getAccuracyOp\<close> still raises its
  assertion error although \<open>Y\<close> was supplied to a call.
\<close>

theorem later_labels_ignored:
  assumes "init rnd d d_cap m L gamma W B Z = Inr self"
    and "call self X None = (Inr out, self')"
  shows "call self' X' (Some Y') = (Inr out, self') \<and> self_accuracy self' = None \<and>
         getAccuracyOp (snd (call self' X' (Some Y'))) = Inl (AssertionError msg)"
proof -
  have c: "call self' X' (Some Y') = (Inr out, self')"
    using call_Inr_caches [OF assms(2)] by (simp add: call_cached)
  have "self_accuracy self' = self_accuracy self"
    using call_None_accuracy [of self X] assms(2) by simp
  then have a: "self_accuracy self' = None"
    using init_fresh [OF assms(1)] by simp
  show ?thesis
    by (simp add: c a getAccuracyOp_def)
qed

theorem later_labels_ignored_witness:
  "init example_rnd 2 2 1 2 1 (Some example_W) (Some example_B) (Some example_Z) = Inr example \<and>
   call example example_X None = (Inr (Tensor [1, 2] [1, 0]), example_called) \<and>
   call example_called example_X (Some example_Y) = (Inr (Tensor [1, 2] [1, 0]), example_called) \<and>
   self_accuracy example_called = None \<and>
   getAccuracyOp (snd (call example_called example_X (Some example_Y))) =
     Inl (AssertionError msg)"
  using later_labels_ignored [OF example_init [of example_rnd] example_call,
      where X' = example_X and Y' = example_Y]
    example_init [of example_rnd] example_call
  by auto

section \<open>Shapes of the scores and the predictions\<close>

text \<open>
  C8, amended. On a constructed instance (whose supplied matrices are matrices, with
  \<open>d_cap\<close> and \<open>L\<close> positive) that has no output cached yet, whatever calls were made
  on it before: for every input \<open>X\<close> of shape \<open>[n, d]\<close>, the call returns scores of
  shape \<open>[n, L]\<close>, holding \<open>n * L\<close> numbers, and caches them together with the
  predictions, the argmax of the scores along the labels: a tensor of shape \<open>[n]\<close> with
  \<open>n\<close> values, each of them less than \<open>L\<close>. The cached scores and predictions are
  these also when labels \<open>Y\<close> are passed. Nothing needs \<open>n\<close>, \<open>d\<close> or \<open>m\<close> to be
  positive.
\<close>

theorem scores_shape:
  assumes init: "init rnd d d_cap m L gamma W B Z = Inr self0"
    and mats: "is_matrix W" "is_matrix B" "is_matrix Z"
    and pos: "0 < d_cap" "0 < L"
    and self: "self = calls self0 cs" and fresh: "self_protoNNOut self = None"
    and X: "shape X = [n, nat d]"
  shows "\<exists>y p.
    fst (call self X None) = Inr y \<and> shape y = [n, nat L] \<and> wf_tensor y \<and>
    argmax y 1 = Inr (Tensor [n] p) \<and> length p = n \<and> list_all (\<lambda>k. k < nat L) p \<and>
    self_protoNNOut (snd (call self X Y)) = Some y \<and>
    self_predictions (snd (call self X Y)) = Some (Tensor [n] p)"
proof -
  from reached_computes [OF init mats pos self fresh X]
  obtain l y p where y: "shape y = [n, nat L]" "length (buf y) = n * nat L"
    and p: "argmax y 1 = Inr (Tensor [n] p)" "length p = n" "list_all (\<lambda>k. k < nat L) p"
    and c: "\<And>Y. call self X Y =
      (case Y of
         None \<Rightarrow>
           (Inr y, self\<lparr>self_l2sim := Some l, self_protoNNOut := Some y,
                        self_predictions := Some (Tensor [n] p)\<rparr>)
       | Some Y' \<Rightarrow>
           (case call_acc (Tensor [n] p) Y' of
              Inl e \<Rightarrow>
                (Inl e, self\<lparr>self_l2sim := Some l, self_protoNNOut := Some y,
                             self_predictions := Some (Tensor [n] p)\<rparr>)
            | Inr acc \<Rightarrow>
                (Inr y, self\<lparr>self_l2sim := Some l, self_protoNNOut := Some y,
                             self_predictions := Some (Tensor [n] p),
                             self_accuracy := Some acc\<rparr>)))"
    by blast
  have 1: "fst (call self X None) = Inr y"
    by (simp add: c)
  have 2: "wf_tensor y"
    by (simp add: wf_tensor_def numel_def y)
  have 3: "self_protoNNOut (snd (call self X Y)) = Some y \<and>
    self_predictions (snd (call self X Y)) = Some (Tensor [n] p)"
    by (simp add: c split: option.splits sum.splits)
  from 1 2 3 y(1) p show ?thesis by blast
qed


theorem scores_shape_witness:
  "\<exists>y p.
     fst (call (calls example [(Tensor [1, 3] [0, 0, 0], None)]) example_X2 None) = Inr y \<and>
     shape y = [2, 2] \<and> wf_tensor y \<and>
     argmax y 1 = Inr (Tensor [2] p) \<and> length p = 2 \<and> list_all (\<lambda>k. k < 2) p"
proof -
  have m: "is_matrix (Some example_W)" "is_matrix (Some example_B)" "is_matrix (Some example_Z)"
    by (simp_all add: is_matrix_def example_defs)
  have f: "self_protoNNOut (calls example [(Tensor [1, 3] [0, 0, 0], None)]) = None"
    by (simp add: example_defs call_def call_l2sim_def matmul_def ebind_def)
  have X: "shape example_X2 = [2, nat 2]"
    by (simp add: example_defs)
  from scores_shape [OF example_init [of example_rnd] m _ _ refl f X, of None]
  show ?thesis by auto
qed

text \<open>
  C8 as stated, for every input \<open>X\<close> of shape \<open>[n, d]\<close> to a call, fails on a call that
  finds the output cached: on the example instance after a first call on one row, a
  call on two rows returns the scores of the first, of shape \<open>[1, 2]\<close>.
\<close>

theorem scores_shape_counterexample:
  "init example_rnd 2 2 1 2 1 (Some example_W) (Some example_B) (Some example_Z) = Inr example \<and>
   calls example [(example_X, None)] = example_called \<and>
   shape example_X2 = [2, nat 2] \<and>
   \<not> (\<exists>y. fst (call example_called example_X2 None) = Inr y \<and> shape y = [2, nat 2])"
proof -
  have "call example_called example_X2 None = (Inr (Tensor [1, 2] [1, 0]), example_called)"
    by (rule call_cached) (simp_all add: example_defs)
  then show ?thesis
    by (simp add: example_init example_call) (simp add: example_defs)
qed

section \<open>Accuracy\<close>

text \<open>
  C7, amended. When a call that computes the output (on a constructed instance with no
  output cached yet) is given \<open>X\<close> of shape \<open>[n, d]\<close> and labels \<open>Y\<close> of shape \<open>[n, L]\<close>,
  \<open>n\<close> at least one, it returns the scores and also caches the accuracy, the mean over
  the \<open>n\<close> rows of "prediction equals argmax of the row of \<open>Y\<close>": a number between 0
  and 1, which is 1 when every row matches and 0 when every row mismatches. For a
  one-hot \<open>Y\<close> the argmax of a row is its label.
\<close>

theorem accuracy_value:
  assumes init: "init rnd d d_cap m L gamma W B Z = Inr self0"
    and mats: "is_matrix W" "is_matrix B" "is_matrix Z"
    and pos: "0 < d_cap" "0 < L"
    and self: "self = calls self0 cs" and fresh: "self_protoNNOut self = None"
    and X: "shape X = [n, nat d]" and Y: "shape Y = [n, nat L]" and n: "0 < n"
  shows "\<exists>y p t acc self'.
    call self X (Some Y) = (Inr y, self') \<and>
    argmax y 1 = Inr (Tensor [n] p) \<and> argmax Y 1 = Inr (Tensor [n] t) \<and>
    length p = n \<and> length t = n \<and>
    self_predictions self' = Some (Tensor [n] p) \<and>
    self_accuracy self' = Some (Val acc) \<and> getAccuracyOp self' = Inr (Val acc) \<and>
    acc = (\<Sum>i\<leftarrow>[0..<n]. if p ! i = t ! i then 1 else 0) / real n \<and>
    0 \<le> acc \<and> acc \<le> 1 \<and>
    ((\<forall>i<n. p ! i = t ! i) \<longrightarrow> acc = 1) \<and>
    ((\<forall>i<n. p ! i \<noteq> t ! i) \<longrightarrow> acc = 0) \<and>
    (\<forall>labels. Y = one_hot (nat L) labels \<and> list_all (\<lambda>k. k < nat L) labels \<longrightarrow> t = labels)"
proof -
  from reached_computes [OF init mats pos self fresh X]
  obtain l y p where p: "argmax y 1 = Inr (Tensor [n] p)" "length p = n"
    and c: "\<And>Y. call self X Y =
      (case Y of
         None \<Rightarrow>
           (Inr y, self\<lparr>self_l2sim := Some l, self_protoNNOut := Some y,
                        self_predictions := Some (Tensor [n] p)\<rparr>)
       | Some Y' \<Rightarrow>
           (case call_acc (Tensor [n] p) Y' of
              Inl e \<Rightarrow>
                (Inl e, self\<lparr>self_l2sim := Some l, self_protoNNOut := Some y,
                             self_predictions := Some (Tensor [n] p)\<rparr>)
            | Inr acc \<Rightarrow>
                (Inr y, self\<lparr>self_l2sim := Some l, self_protoNNOut := Some y,
                             self_predictions := Some (Tensor [n] p),
                             self_accuracy := Some acc\<rparr>)))"
    by blast
  have L: "0 < nat L" using pos by simp
  from call_acc_value [of "Tensor [n] p" n Y "nat L", OF _ Y L n]
  obtain t where t: "argmax Y 1 = Inr (Tensor [n] t)" "length t = n"
    and a: "call_acc (Tensor [n] p) Y =
      Inr (Val ((\<Sum>i\<leftarrow>[0..<n]. if p ! i = t ! i then 1 else 0) / real n))"
    by auto
  let ?s = "\<Sum>i\<leftarrow>[0..<n]. if p ! i = t ! i then 1 else (0::real)"
  let ?acc = "?s / real n"
  let ?self' = "self\<lparr>self_l2sim := Some l, self_protoNNOut := Some y,
    self_predictions := Some (Tensor [n] p), self_accuracy := Some (Val ?acc)\<rparr>"
  have r: "call self X (Some Y) = (Inr y, ?self')"
    by (simp add: c a)
  have b: "0 \<le> ?s" "?s \<le> real n"
    using indicator_sum_bounds [of "\<lambda>i. p ! i = t ! i" "[0..<n]"] by simp_all
  have b0: "0 \<le> ?acc" using b(1) by simp
  have b1: "?acc \<le> 1" using b(2) n by simp
  have all: "?acc = 1" if "\<forall>i<n. p ! i = t ! i"
    using indicator_sum_all [of "[0..<n]" "\<lambda>i. p ! i = t ! i"] that n by simp
  have none: "?acc = 0" if "\<forall>i<n. p ! i \<noteq> t ! i"
    using indicator_sum_none [of "[0..<n]" "\<lambda>i. p ! i = t ! i"] that by simp
  have oh: "t = labels" if "Y = one_hot (nat L) labels" "list_all (\<lambda>k. k < nat L) labels" for labels
    using argmax_one_hot [OF L that(2)] t(1) that(1) by simp
  show ?thesis
  proof (intro exI conjI)
    show "call self X (Some Y) = (Inr y, ?self')" by (rule r)
    show "argmax y 1 = Inr (Tensor [n] p)" by (rule p(1))
    show "argmax Y 1 = Inr (Tensor [n] t)" by (rule t(1))
    show "length p = n" by (rule p(2))
    show "length t = n" by (rule t(2))
    show "self_predictions ?self' = Some (Tensor [n] p)" by simp
    show "self_accuracy ?self' = Some (Val ?acc)" by simp
    show "getAccuracyOp ?self' = Inr (Val ?acc)" by (simp add: getAccuracyOp_def)
    show "?acc = ?s / real n" by (rule refl)
    show "0 \<le> ?acc" by (rule b0)
    show "?acc \<le> 1" by (rule b1)
    show "(\<forall>i<n. p ! i = t ! i) \<longrightarrow> ?acc = 1" using all by blast
    show "(\<forall>i<n. p ! i \<noteq> t ! i) \<longrightarrow> ?acc = 0" using none by blast
    show "\<forall>labels. Y = one_hot (nat L) labels \<and> list_all (\<lambda>k. k < nat L) labels \<longrightarrow>
      t = labels" using oh by blast
  qed
qed


theorem accuracy_value_witness:
  "call example example_X (Some example_Y) =
     (Inr (Tensor [1, 2] [1, 0]), example_called\<lparr>self_accuracy := Some (Val 1)\<rparr>) \<and>
   example_Y = one_hot 2 [0] \<and>
   argmax example_Y 1 = Inr (Tensor [1] [0]) \<and>
   getAccuracyOp (snd (call example example_X (Some example_Y))) = Inr (Val 1)"
proof -
  have m: "is_matrix (Some example_W)" "is_matrix (Some example_B)" "is_matrix (Some example_Z)"
    by (simp_all add: is_matrix_def example_defs)
  have f: "self_protoNNOut (calls example []) = None"
    by (simp add: example_defs)
  have X: "shape example_X = [1, nat 2]" and Y: "shape example_Y = [1, nat 2]"
    by (simp_all add: example_defs)
  have o: "example_Y = one_hot (nat 2) [0]"
    by (simp add: example_defs one_hot_def upt_rec)
  from accuracy_value [OF example_init [of example_rnd] m _ _ refl f X Y]
  obtain t where t: "argmax example_Y 1 = Inr (Tensor [1] t)"
    and oh: "\<forall>labels. example_Y = one_hot (nat 2) labels \<and> list_all (\<lambda>k. k < nat 2) labels \<longrightarrow>
      t = labels"
    by auto
  have "t = [0]"
    using oh o by simp
  with t have "argmax example_Y 1 = Inr (Tensor [1] [0])"
    by simp
  moreover have "getAccuracyOp (snd (call example example_X (Some example_Y))) = Inr (Val 1)"
    by (simp add: example_call_Y getAccuracyOp_def)
  moreover have "example_Y = one_hot 2 [0]"
    using o by simp
  ultimately show ?thesis
    using example_call_Y by blast
qed

text \<open>
  C7 as stated, "whenever \<^verbatim>\<open>__call__\<close> is given \<open>Y\<close> it computes and caches the accuracy",
  fails on a call that finds the output cached: on the example instance after a first
  call without labels, a call with labels caches no accuracy.
\<close>

theorem accuracy_whenever_counterexample:
  "init example_rnd 2 2 1 2 1 (Some example_W) (Some example_B) (Some example_Z) = Inr example \<and>
   calls example [(example_X, None)] = example_called \<and>
   \<not> (\<exists>acc. self_accuracy (snd (call example_called example_X (Some example_Y))) = Some acc)"
proof -
  have "call example_called example_X (Some example_Y) =
    (Inr (Tensor [1, 2] [1, 0]), example_called)"
    by (rule call_cached) (simp_all add: example_defs)
  then show ?thesis
    by (simp add: example_init example_call) (simp add: example_defs)
qed

text \<open>
  C6, amended. \<^verbatim>\<open>getAccuracyOp\<close> raises its assertion error exactly when no accuracy
  is cached on the instance. None is cached on a constructed instance before any call
  and after any sequence of calls none of which supplied \<open>Y\<close>. After a first call on
  inputs of the specified shapes it raises exactly when that first call supplied no
  \<open>Y\<close>, whatever the later calls supply: when the first call supplied \<open>Y\<close> it returns
  the accuracy that call cached.
\<close>

theorem accuracy_available:
  assumes init: "init rnd d d_cap m L gamma W B Z = Inr self"
    and mats: "is_matrix W" "is_matrix B" "is_matrix Z"
    and pos: "0 < d_cap" "0 < L"
    and X: "shape X = [n, nat d]" and n: "0 < n"
    and Y: "case Y of None \<Rightarrow> True | Some Y' \<Rightarrow> shape Y' = [n, nat L]"
  shows "(getAccuracyOp s = Inl (AssertionError msg) \<longleftrightarrow> self_accuracy s = None) \<and>
    getAccuracyOp self = Inl (AssertionError msg) \<and>
    (list_all (\<lambda>c. snd c = None) cs0 \<longrightarrow>
       getAccuracyOp (calls self cs0) = Inl (AssertionError msg)) \<and>
    (getAccuracyOp (calls self ((X, Y) # cs)) = Inl (AssertionError msg) \<longleftrightarrow> Y = None) \<and>
    (Y \<noteq> None \<longrightarrow>
       (\<exists>acc. self_accuracy (snd (call self X Y)) = Some acc \<and>
              getAccuracyOp (calls self ((X, Y) # cs)) = Inr acc))"
proof -
  have fr: "self_validInit self" "self_protoNNOut self = None" "self_accuracy self = None"
    using init_fresh [OF init] by simp_all
  have 1: "getAccuracyOp s = Inl (AssertionError msg) \<longleftrightarrow> self_accuracy s = None" for s
    by (cases "self_accuracy s") (simp_all add: getAccuracyOp_def)
  have 2: "getAccuracyOp self = Inl (AssertionError msg)"
    by (simp add: 1 fr)
  have 3: "getAccuracyOp (calls self cs0) = Inl (AssertionError msg)"
    if "list_all (\<lambda>c. snd c = None) cs0"
    using calls_None_accuracy [OF that, of self] by (simp add: 1 fr)
  have self: "self = calls self []" by simp
  from reached_computes [OF init mats pos self fr(2) X]
  obtain l y p where
    c: "\<And>Y. call self X Y =
      (case Y of
         None \<Rightarrow>
           (Inr y, self\<lparr>self_l2sim := Some l, self_protoNNOut := Some y,
                        self_predictions := Some (Tensor [n] p)\<rparr>)
       | Some Y' \<Rightarrow>
           (case call_acc (Tensor [n] p) Y' of
              Inl e \<Rightarrow>
                (Inl e, self\<lparr>self_l2sim := Some l, self_protoNNOut := Some y,
                             self_predictions := Some (Tensor [n] p)\<rparr>)
            | Inr acc \<Rightarrow>
                (Inr y, self\<lparr>self_l2sim := Some l, self_protoNNOut := Some y,
                             self_predictions := Some (Tensor [n] p),
                             self_accuracy := Some acc\<rparr>)))"
    by blast
  have L: "0 < nat L" using pos by simp
  have k: "calls self ((X, Y) # cs) = snd (call self X Y)"
  proof -
    have "self_validInit (snd (call self X Y))"
      by (simp add: call_validInit fr)
    moreover have "self_protoNNOut (snd (call self X Y)) = Some y"
      by (simp add: c split: option.splits sum.splits)
    ultimately show ?thesis
      by (simp add: calls_cached)
  qed
  have 4: "self_accuracy (snd (call self X Y)) = None" if "Y = None"
    using that by (simp add: c fr)
  have 5: "\<exists>acc. self_accuracy (snd (call self X Y)) = Some acc" if "Y \<noteq> None"
  proof -
    from that obtain Y' where Y': "Y = Some Y'" by auto
    then have sY: "shape Y' = [n, nat L]" using Y by simp
    from call_acc_value [of "Tensor [n] p" n Y' "nat L", OF _ sY L n]
    obtain a where "call_acc (Tensor [n] p) Y' = Inr a" by auto
    then show ?thesis by (simp add: c Y')
  qed
  show ?thesis
  proof (intro conjI impI)
    show "getAccuracyOp s = Inl (AssertionError msg) \<longleftrightarrow> self_accuracy s = None" by (rule 1)
    show "getAccuracyOp self = Inl (AssertionError msg)" by (rule 2)
    show "getAccuracyOp (calls self cs0) = Inl (AssertionError msg)"
      if "list_all (\<lambda>c. snd c = None) cs0" using that by (rule 3)
    show "getAccuracyOp (calls self ((X, Y) # cs)) = Inl (AssertionError msg) \<longleftrightarrow> Y = None"
      unfolding k 1 by (metis 4 5 option.distinct(1))
    show "\<exists>acc. self_accuracy (snd (call self X Y)) = Some acc \<and>
              getAccuracyOp (calls self ((X, Y) # cs)) = Inr acc" if "Y \<noteq> None"
      unfolding k using 5 [OF that] by (auto simp: getAccuracyOp_def)
  qed
qed

theorem accuracy_available_witness:
  "getAccuracyOp example = Inl (AssertionError msg) \<and>
   getAccuracyOp (calls example [(example_X, None), (example_X2, None)]) =
     Inl (AssertionError msg) \<and>
   getAccuracyOp (calls example [(example_X, None), (example_X, Some example_Y)]) =
     Inl (AssertionError msg) \<and>
   getAccuracyOp (calls example [(example_X, Some example_Y), (example_X2, None)]) =
     Inr (Val 1)"
proof -
  have m: "is_matrix (Some example_W)" "is_matrix (Some example_B)" "is_matrix (Some example_Z)"
    by (simp_all add: is_matrix_def example_defs)
  have X: "shape example_X = [1, nat 2]"
    by (simp add: example_defs)
  have Y: "case Some example_Y of None \<Rightarrow> True | Some Y' \<Rightarrow> shape Y' = [1, nat 2]"
    by (simp add: example_defs)
  have N: "case None :: real tensor option of None \<Rightarrow> True | Some Y' \<Rightarrow> shape Y' = [1, nat 2]"
    by simp
  note a = accuracy_available [OF example_init [of example_rnd] m _ _ X _ N,
      of example "[(example_X, None), (example_X2, None)]" "[(example_X, Some example_Y)]"]
  note b = accuracy_available [OF example_init [of example_rnd] m _ _ X _ Y,
      of example "[]" "[(example_X2, None)]"]
  have 1: "getAccuracyOp example = Inl (AssertionError msg)"
    using a by simp
  have 2: "getAccuracyOp (calls example [(example_X, None), (example_X2, None)]) =
     Inl (AssertionError msg)"
    using a by simp
  have 3: "getAccuracyOp (calls example [(example_X, None), (example_X, Some example_Y)]) =
     Inl (AssertionError msg)"
    using a by simp
  have "\<exists>acc. self_accuracy (snd (call example example_X (Some example_Y))) = Some acc \<and>
     getAccuracyOp (calls example [(example_X, Some example_Y), (example_X2, None)]) = Inr acc"
    using b by simp
  then have 4: "getAccuracyOp (calls example [(example_X, Some example_Y), (example_X2, None)]) =
     Inr (Val 1)"
    by (auto simp: example_call_Y)
  from 1 2 3 4 show ?thesis by blast
qed

text \<open>
  C6 as stated, "it raises if and only if no call ever supplied \<open>Y\<close>", fails when \<open>Y\<close>
  comes with a later call only: it still raises.
\<close>

theorem accuracy_iff_counterexample:
  "init example_rnd 2 2 1 2 1 (Some example_W) (Some example_B) (Some example_Z) = Inr example \<and>
   \<not> (getAccuracyOp (calls example [(example_X, None), (example_X, Some example_Y)]) =
         Inl (AssertionError msg) \<longleftrightarrow>
       list_all (\<lambda>c. snd c = None) [(example_X, None), (example_X, Some example_Y)])"
proof -
  have "getAccuracyOp example_called = Inl (AssertionError msg)"
    by (simp add: getAccuracyOp_def example_defs)
  then show ?thesis
    unfolding example_later_labels by (simp add: example_init)
qed

end
